theory Spec2Isabelle
  imports Main "HOL-Library.Word" "HOL-Library.Sublist" "HOL-Library.Multiset" "HOL-Library.AList"
begin

section \<open>JavaScript strings\<close>

text \<open>
  A JavaScript string is a sequence of 16-bit code units. The literals of the program are
  ASCII; \<open>js\<close> turns an Isabelle literal into the string the program holds.
\<close>

type_synonym jschar = "16 word"
type_synonym jsstring = "jschar list"
type_synonym byte = "8 word"

definition js :: "string \<Rightarrow> jsstring" where
  "js s = map (\<lambda>c. of_nat (of_char c)) s"

definition startsWith :: "jsstring \<Rightarrow> jsstring \<Rightarrow> bool" where
  \<comment> \<open>\<open>s.startsWith(p)\<close>\<close>
  "startsWith s p = (take (length p) s = p)"

fun join :: "jsstring \<Rightarrow> jsstring list \<Rightarrow> jsstring" where
  \<comment> \<open>\<open>xs.join(sep)\<close> on an array of strings\<close>
  "join sep [] = []"
| "join sep [x] = x"
| "join sep (x # y # ys) = x @ sep @ join sep (y # ys)"

definition quoted :: "jsstring \<Rightarrow> jsstring" where
  \<comment> \<open>the string between two apostrophes\<close>
  "quoted s = [0x27] @ s @ [0x27]"

definition isWhiteSpace :: "jschar \<Rightarrow> bool" where
  \<comment> \<open>the code units \<open>String.prototype.trim\<close> strips: WhiteSpace and LineTerminator\<close>
  "isWhiteSpace c = (c \<in> {0x9, 0xA, 0xB, 0xC, 0xD, 0x20, 0xA0, 0x1680, 0x2028, 0x2029,
       0x202F, 0x205F, 0x3000, 0xFEFF} \<or> (0x2000 \<le> c \<and> c \<le> 0x200A))"

definition trim :: "jsstring \<Rightarrow> jsstring" where
  "trim s = rev (dropWhile isWhiteSpace (rev (dropWhile isWhiteSpace s)))"

section \<open>The POSIX \<open>path\<close> module\<close>

text \<open>
  \<open>path.resolve\<close>, \<open>path.relative\<close>, \<open>path.dirname\<close> and \<open>path.isAbsolute\<close> of the
  platform, on POSIX: purely lexical functions on strings. An absolute normalised path
  is \<open>/\<close> or \<open>/s1/.../sn\<close> with every segment non-empty, free of \<open>/\<close> and different
  from \<open>.\<close> and \<open>..\<close>.
\<close>

fun split_slash :: "jsstring \<Rightarrow> jsstring list" where
  \<comment> \<open>\<open>p.split("/")\<close>\<close>
  "split_slash [] = [[]]"
| "split_slash (c # cs) =
     (if c = 0x2F then [] # split_slash cs
      else (case split_slash cs of [] \<Rightarrow> [[c]] | s # ss \<Rightarrow> (c # s) # ss))"

definition segments :: "jsstring \<Rightarrow> jsstring list" where
  \<comment> \<open>the non-empty segments of a path: redundant separators vanish\<close>
  "segments p = filter (\<lambda>s. s \<noteq> []) (split_slash p)"

fun normalizeString :: "jsstring list \<Rightarrow> jsstring list \<Rightarrow> jsstring list" where
  \<comment> \<open>collapses \<open>.\<close> and \<open>..\<close>; the first argument is the stack of segments kept so
      far, last one first; \<open>..\<close> at the root stays at the root\<close>
  "normalizeString acc [] = rev acc"
| "normalizeString acc (s # ss) =
     (if s = js ''.'' then normalizeString acc ss
      else if s = js ''..'' then normalizeString (drop 1 acc) ss
      else normalizeString (s # acc) ss)"

definition render :: "jsstring list \<Rightarrow> jsstring" where
  \<comment> \<open>the absolute path with the given segments\<close>
  "render segs = (if segs = [] then js ''/'' else concat (map (\<lambda>s. js ''/'' @ s) segs))"

definition path_isAbsolute :: "jsstring \<Rightarrow> bool" where
  "path_isAbsolute p = startsWith p (js ''/'')"

definition path_resolve :: "jsstring \<Rightarrow> jsstring \<Rightarrow> jsstring" where
  \<comment> \<open>\<open>path.resolve(base, p)\<close> for an absolute \<open>base\<close>: an absolute \<open>p\<close> replaces
      \<open>base\<close>, a relative one is joined to it; the result is normalised\<close>
  "path_resolve base p =
     render (normalizeString []
       (if path_isAbsolute p then segments p else segments base @ segments p))"

fun strip_common :: "jsstring list \<Rightarrow> jsstring list \<Rightarrow> jsstring list \<times> jsstring list" where
  \<comment> \<open>drops the longest common prefix of two segment lists\<close>
  "strip_common (a # as) (b # bs) = (if a = b then strip_common as bs else (a # as, b # bs))"
| "strip_common as bs = (as, bs)"

definition path_relative :: "jsstring \<Rightarrow> jsstring \<Rightarrow> jsstring" where
  \<comment> \<open>\<open>path.relative(from, to)\<close> for absolute paths: one \<open>..\<close> for every segment of
      \<open>from\<close> below the common ancestor, then the rest of \<open>to\<close>\<close>
  "path_relative from to =
     (case strip_common (normalizeString [] (segments from)) (normalizeString [] (segments to)) of
        (up, down) \<Rightarrow> join (js ''/'') (map (\<lambda>_. js ''..'') up @ down))"

definition path_dirname :: "jsstring \<Rightarrow> jsstring" where
  \<comment> \<open>\<open>path.dirname\<close> of an absolute normalised path; the root is its own parent\<close>
  "path_dirname p = render (butlast (segments p))"

section \<open>JSON values\<close>

text \<open>
  What \<open>JSON.parse\<close> returns. Numbers are opaque: the program never computes with one.
  A property that is absent reads as \<open>undefined\<close>, which is \<open>None\<close> here.
\<close>

datatype 'n json = JNull | JBool bool | JNum 'n | JStr jsstring
  | JArr "'n json list" | JObj "(jsstring \<times> 'n json) list"

fun typeof :: "'n json option \<Rightarrow> string" where
  "typeof None = ''undefined''"
| "typeof (Some JNull) = ''object''"
| "typeof (Some (JBool b)) = ''boolean''"
| "typeof (Some (JNum n)) = ''number''"
| "typeof (Some (JStr s)) = ''string''"
| "typeof (Some (JArr xs)) = ''object''"
| "typeof (Some (JObj kvs)) = ''object''"

fun js_get :: "'n json \<Rightarrow> jsstring \<Rightarrow> 'n json option" where
  \<comment> \<open>\<open>v[k]\<close> for the keys the program reads (none of them is on a prototype)\<close>
  "js_get (JObj kvs) k = map_of kvs k"
| "js_get v k = None"

fun has_in :: "jsstring \<Rightarrow> 'n json \<Rightarrow> bool" where
  \<comment> \<open>\<open>k in v\<close> for the key the program tests, on a value with \<open>typeof v = "object"\<close>\<close>
  "has_in k (JObj kvs) = (k \<in> fst ` set kvs)"
| "has_in k v = False"

fun ToString :: "('n \<Rightarrow> jsstring) \<Rightarrow> 'n json \<Rightarrow> jsstring option" where
  \<comment> \<open>the conversion a template literal applies; \<open>None\<close> is the TypeError "Cannot
      convert object to primitive value", thrown for an object whose own \<open>toString\<close>
      property shadows \<open>Object.prototype.toString\<close> with a value that is not callable\<close>
  "ToString ns JNull = Some (js ''null'')"
| "ToString ns (JBool b) = Some (if b then js ''true'' else js ''false'')"
| "ToString ns (JNum n) = Some (ns n)"
| "ToString ns (JStr s) = Some s"
| "ToString ns (JArr xs) =
     map_option (join (js '',''))
       (those (map (\<lambda>x. if x = JNull then Some [] else ToString ns x) xs))"
| "ToString ns (JObj kvs) =
     (if js ''toString'' \<in> fst ` set kvs then None else Some (js ''[object Object]''))"

definition template :: "('n \<Rightarrow> jsstring) \<Rightarrow> 'n json option \<Rightarrow> jsstring option" where
  \<comment> \<open>\<open>`${v}`\<close>\<close>
  "template ns v = (case v of None \<Rightarrow> Some (js ''undefined'') | Some x \<Rightarrow> ToString ns x)"

text \<open>The library functions of the host that the program calls and that stay parameters.\<close>

record 'n platform =
  JSON_parse :: "jsstring \<Rightarrow> 'n json option"  \<comment> \<open>\<open>None\<close>: a SyntaxError\<close>
  Number_toString :: "'n \<Rightarrow> jsstring"
  localeCompare :: "jsstring \<Rightarrow> jsstring \<Rightarrow> int"

section \<open>UTF-8\<close>

text \<open>
  Writing a string with encoding \<open>utf-8\<close> encodes its code points, an unpaired
  surrogate as U+FFFD; reading decodes, an ill-formed sequence as U+FFFD.
\<close>

definition byte_of :: "nat \<Rightarrow> byte" where
  "byte_of n = of_nat n"

definition unit_of :: "nat \<Rightarrow> jschar" where
  "unit_of n = of_nat n"

definition encode_cp :: "nat \<Rightarrow> byte list" where
  \<comment> \<open>the bytes of a code point\<close>
  "encode_cp u =
     (if u < 0x80 then [byte_of u]
      else if u < 0x800 then [byte_of (0xC0 + u div 0x40), byte_of (0x80 + u mod 0x40)]
      else if u < 0x10000 then
        [byte_of (0xE0 + u div 0x1000), byte_of (0x80 + u div 0x40 mod 0x40),
         byte_of (0x80 + u mod 0x40)]
      else
        [byte_of (0xF0 + u div 0x40000), byte_of (0x80 + u div 0x1000 mod 0x40),
         byte_of (0x80 + u div 0x40 mod 0x40), byte_of (0x80 + u mod 0x40)])"

definition isHigh :: "jschar \<Rightarrow> bool" where
  \<comment> \<open>a high (leading) surrogate\<close>
  "isHigh c = (0xD800 \<le> unat c \<and> unat c \<le> 0xDBFF)"

definition isLow :: "jschar \<Rightarrow> bool" where
  \<comment> \<open>a low (trailing) surrogate\<close>
  "isLow c = (0xDC00 \<le> unat c \<and> unat c \<le> 0xDFFF)"

fun utf8_encode :: "jsstring \<Rightarrow> byte list" where
  "utf8_encode [] = []"
| "utf8_encode (c # cs) =
     (if isHigh c then
        (case cs of
           [] \<Rightarrow> encode_cp 0xFFFD
         | d # ds \<Rightarrow>
             if isLow d
             then encode_cp (0x10000 + (unat c - 0xD800) * 0x400 + (unat d - 0xDC00))
                    @ utf8_encode ds
             else encode_cp 0xFFFD @ utf8_encode cs)
      else if isLow c then encode_cp 0xFFFD @ utf8_encode cs
      else encode_cp (unat c) @ utf8_encode cs)"

definition from_cp :: "nat \<Rightarrow> jsstring" where
  \<comment> \<open>the code units of a code point\<close>
  "from_cp u =
     (if u < 0x10000 then [unit_of u]
      else [unit_of (0xD800 + (u - 0x10000) div 0x400),
            unit_of (0xDC00 + (u - 0x10000) mod 0x400)])"

definition in_range :: "byte \<Rightarrow> nat \<Rightarrow> nat \<Rightarrow> bool" where
  "in_range b lo hi = (lo \<le> unat b \<and> unat b \<le> hi)"

definition second_lo :: "byte \<Rightarrow> nat" where
  \<comment> \<open>the least second byte after a lead byte: no overlong form\<close>
  "second_lo b = (if unat b = 0xE0 then 0xA0 else if unat b = 0xF0 then 0x90 else 0x80)"

definition second_hi :: "byte \<Rightarrow> nat" where
  \<comment> \<open>the greatest second byte after a lead byte: no surrogate, nothing above U+10FFFF\<close>
  "second_hi b = (if unat b = 0xED then 0x9F else if unat b = 0xF4 then 0x8F else 0xBF)"

definition bits :: "byte \<Rightarrow> nat" where
  \<comment> \<open>the six payload bits of a continuation byte\<close>
  "bits b = unat b mod 0x40"

fun utf8_decode :: "byte list \<Rightarrow> jsstring" where
  "utf8_decode [] = []"
| "utf8_decode (b # bs) =
     (if in_range b 0 0x7F then unit_of (unat b) # utf8_decode bs
      else if in_range b 0xC2 0xDF then
        (case bs of
           [] \<Rightarrow> [0xFFFD]
         | b1 # r1 \<Rightarrow>
             if in_range b1 0x80 0xBF
             then from_cp ((unat b - 0xC0) * 0x40 + bits b1) @ utf8_decode r1
             else 0xFFFD # utf8_decode bs)
      else if in_range b 0xE0 0xEF then
        (case bs of
           [] \<Rightarrow> [0xFFFD]
         | b1 # r1 \<Rightarrow>
             if in_range b1 (second_lo b) (second_hi b)
             then (case r1 of
                     [] \<Rightarrow> [0xFFFD]
                   | b2 # r2 \<Rightarrow>
                       if in_range b2 0x80 0xBF
                       then from_cp ((unat b - 0xE0) * 0x1000 + bits b1 * 0x40 + bits b2)
                              @ utf8_decode r2
                       else 0xFFFD # utf8_decode r1)
             else 0xFFFD # utf8_decode bs)
      else if in_range b 0xF0 0xF4 then
        (case bs of
           [] \<Rightarrow> [0xFFFD]
         | b1 # r1 \<Rightarrow>
             if in_range b1 (second_lo b) (second_hi b)
             then (case r1 of
                     [] \<Rightarrow> [0xFFFD]
                   | b2 # r2 \<Rightarrow>
                       if in_range b2 0x80 0xBF
                       then (case r2 of
                               [] \<Rightarrow> [0xFFFD]
                             | b3 # r3 \<Rightarrow>
                                 if in_range b3 0x80 0xBF
                                 then from_cp ((unat b - 0xF0) * 0x40000 + bits b1 * 0x1000
                                                + bits b2 * 0x40 + bits b3) @ utf8_decode r3
                                 else 0xFFFD # utf8_decode r2)
                       else 0xFFFD # utf8_decode r1)
             else 0xFFFD # utf8_decode bs)
      else 0xFFFD # utf8_decode bs)"

section \<open>The file system\<close>

text \<open>
  The file system of the host, without links and permissions: a tree of directories and
  regular files, the files holding bytes. A path is looked up segment by segment from
  the root directory. A name is identified with the string that denotes it.
\<close>

datatype node = File "byte list" | Dir "(jsstring \<times> node) list"

datatype errno = ENOENT | EISDIR | ENOTDIR | EEXIST | ERR_INVALID_ARG_VALUE

fun errno_text :: "errno \<Rightarrow> string" where
  "errno_text ENOENT = ''ENOENT: no such file or directory''"
| "errno_text EISDIR = ''EISDIR: illegal operation on a directory''"
| "errno_text ENOTDIR = ''ENOTDIR: not a directory''"
| "errno_text EEXIST = ''EEXIST: file already exists''"
| "errno_text ERR_INVALID_ARG_VALUE = ''ERR_INVALID_ARG_VALUE''"

definition inspect_path :: "jsstring \<Rightarrow> jsstring" where
  \<comment> \<open>how the host prints the path it received: between apostrophes, the null byte as
      \<open>\x00\<close> (the escapes of the other control characters are not modelled)\<close>
  "inspect_path p = quoted (concat (map (\<lambda>c. if c = 0 then [0x5C] @ js ''x00'' else [c]) p))"

definition errno_message :: "errno \<Rightarrow> string \<Rightarrow> jsstring \<Rightarrow> jsstring" where
  \<comment> \<open>\<open>error.message\<close> of the host for a failed system call on a path\<close>
  "errno_message e syscall p =
     (if e = ERR_INVALID_ARG_VALUE then
        js ''The argument '' @ quoted (js ''path'')
          @ js '' must be a string, Uint8Array, or URL without null bytes. Received ''
          @ inspect_path p
      else js (errno_text e) @ js '', '' @ js syscall @ js '' '' @ quoted p)"

fun lookup :: "node \<Rightarrow> jsstring list \<Rightarrow> errno + node" where
  "lookup n [] = Inr n"
| "lookup (File d) (s # ss) = Inl ENOTDIR"
| "lookup (Dir es) (s # ss) =
     (case map_of es s of None \<Rightarrow> Inl ENOENT | Some c \<Rightarrow> lookup c ss)"

fun store :: "node \<Rightarrow> jsstring list \<Rightarrow> byte list \<Rightarrow> errno + node" where
  \<comment> \<open>creates or replaces a regular file; its directory must exist\<close>
  "store (Dir es) [] d = Inl EISDIR"
| "store (File old) [] d = Inr (File d)"
| "store (File old) (s # ss) d = Inl ENOTDIR"
| "store (Dir es) (s # ss) d =
     (case map_of es s of
        None \<Rightarrow> if ss = [] then Inr (Dir (es @ [(s, File d)])) else Inl ENOENT
      | Some c \<Rightarrow>
          (case store c ss d of
             Inl e \<Rightarrow> Inl e
           | Inr c' \<Rightarrow> Inr (Dir (AList.update s c' es))))"

fun mkdirp :: "node \<Rightarrow> jsstring list \<Rightarrow> errno + node" where
  \<comment> \<open>\<open>mkdir\<close> with \<open>recursive: true\<close>: creates what is missing, accepts what exists\<close>
  "mkdirp (Dir es) [] = Inr (Dir es)"
| "mkdirp (File old) [] = Inl EEXIST"
| "mkdirp (File old) (s # ss) = Inl ENOTDIR"
| "mkdirp (Dir es) (s # ss) =
     (case map_of es s of
        None \<Rightarrow>
          (case mkdirp (Dir []) ss of
             Inl e \<Rightarrow> Inl e
           | Inr c' \<Rightarrow> Inr (Dir (es @ [(s, c')])))
      | Some c \<Rightarrow>
          (case mkdirp c ss of
             Inl e \<Rightarrow> Inl e
           | Inr c' \<Rightarrow> Inr (Dir (AList.update s c' es))))"

record dirent =
  dirent_name :: jsstring
  isDirectory :: bool

fun is_dir :: "node \<Rightarrow> bool" where
  "is_dir (Dir es) = True"
| "is_dir (File d) = False"

definition has_nul :: "jsstring \<Rightarrow> bool" where
  \<comment> \<open>the \<open>fs\<close> module rejects a path with a null byte before any system call\<close>
  "has_nul p = (0 \<in> set p)"

definition fs_readFile :: "node \<Rightarrow> jsstring \<Rightarrow> errno + jsstring" where
  \<comment> \<open>\<open>fs.readFile(p, {encoding: "utf-8"})\<close>\<close>
  "fs_readFile fs p =
     (if has_nul p then Inl ERR_INVALID_ARG_VALUE
      else case lookup fs (segments p) of
        Inl e \<Rightarrow> Inl e
      | Inr (Dir es) \<Rightarrow> Inl EISDIR
      | Inr (File d) \<Rightarrow> Inr (utf8_decode d))"

definition fs_writeFile :: "node \<Rightarrow> jsstring \<Rightarrow> jsstring \<Rightarrow> errno + node" where
  \<comment> \<open>\<open>fs.writeFile(p, content, {encoding: "utf-8"})\<close>\<close>
  "fs_writeFile fs p content =
     (if has_nul p then Inl ERR_INVALID_ARG_VALUE
      else store fs (segments p) (utf8_encode content))"

definition fs_mkdir :: "node \<Rightarrow> jsstring \<Rightarrow> errno + node" where
  \<comment> \<open>\<open>fs.mkdir(p, {recursive: true})\<close>\<close>
  "fs_mkdir fs p =
     (if has_nul p then Inl ERR_INVALID_ARG_VALUE else mkdirp fs (segments p))"

definition fs_readdir :: "node \<Rightarrow> jsstring \<Rightarrow> errno + dirent list" where
  \<comment> \<open>\<open>fs.readdir(p, {withFileTypes: true})\<close>\<close>
  "fs_readdir fs p =
     (if has_nul p then Inl ERR_INVALID_ARG_VALUE
      else case lookup fs (segments p) of
        Inl e \<Rightarrow> Inl e
      | Inr (File d) \<Rightarrow> Inl ENOTDIR
      | Inr (Dir es) \<Rightarrow>
          Inr (map (\<lambda>(n, c). \<lparr>dirent_name = n, isDirectory = is_dir c\<rparr>) es))"

section \<open>The world outside the process\<close>

text \<open>
  The state the handlers act on: the file system, and the log of every call made to the
  \<open>fs\<close> module and to the model, in order.
\<close>

record 'n generate_request =
  contents :: "(jsstring \<times> jsstring) list"  \<comment> \<open>role and text of each part\<close>
  temperature :: "'n option"
  topP :: "'n option"

datatype 'n effect =
    FsReadFile jsstring
  | FsWriteFile jsstring
  | FsMkdir jsstring
  | FsReaddir jsstring
  | GenerateContent "'n generate_request"

record 'n world =
  files :: node
  effects :: "'n effect list"

definition log :: "'n effect \<Rightarrow> 'n world \<Rightarrow> 'n world" where
  "log e w = w\<lparr>effects := effects w @ [e]\<rparr>"

datatype upstream = Text jsstring | Failure jsstring
  \<comment> \<open>what \<open>generateContent\<close> does: a response with its text (empty when it has none),
      or an exception with its message\<close>

datatype tool_error = MCPServerError jsstring | JsError jsstring
  \<comment> \<open>the exceptions a handler throws, with \<open>error.message\<close>: the program's own class,
      and any other Error\<close>

record tool_result =
  tool_text :: jsstring
  isError :: "bool option"  \<comment> \<open>no handler sets it\<close>

type_synonym 'n model = "'n generate_request \<Rightarrow> upstream"

section \<open>GeminiClient\<close>

definition GeminiClient :: "jsstring \<Rightarrow> jsstring + 'n model \<Rightarrow> tool_error + 'n model" where
  \<comment> \<open>the constructor; the second argument is what the SDK gives for the model name: a
      model, or the message of the exception it throws\<close>
  "GeminiClient apiKey sdk =
     (if apiKey = [] then
        Inl (MCPServerError (js
          ''GOOGLE_API_KEY is not set. Export your Gemini API key before launching the server.''))
      else case sdk of
        Inl m \<Rightarrow> Inl (MCPServerError (js ''Failed to create Gemini client: '' @ m))
      | Inr model \<Rightarrow> Inr model)"

definition GeminiClient_generate ::
  "'n model \<Rightarrow> jsstring \<Rightarrow> jsstring option \<Rightarrow> 'n option \<Rightarrow> 'n option \<Rightarrow> 'n world
     \<Rightarrow> (tool_error + jsstring) \<times> 'n world" where
  \<comment> \<open>the one caller passes a string prompt, a string or no system prompt, numbers or
      no sampling parameters\<close>
  "GeminiClient_generate model prompt systemPrompt temp nucleus w =
     (if prompt = [] then
        (Inl (MCPServerError (quoted (js ''prompt'') @ js '' must be a non-empty string.'')), w)
      else
        let request = \<lparr>
              contents =
                (case systemPrompt of
                   None \<Rightarrow> []
                 | Some s \<Rightarrow> if s = [] then [] else [(js ''system'', s)])
                @ [(js ''user'', prompt)],
              temperature = temp,
              topP = nucleus\<rparr>;
            w' = log (GenerateContent request) w
        in case model request of
             Text t \<Rightarrow>
               if t = [] then
                 (Inl (MCPServerError (js ''Gemini call failed: ''
                    @ js ''Gemini response did not contain text output.'')), w')
               else (Inr t, w')
           | Failure m \<Rightarrow> (Inl (MCPServerError (js ''Gemini call failed: '' @ m)), w'))"

section \<open>LocalMCPServer\<close>

record 'n server =
  root :: jsstring
  gemini :: "'n model option"

definition LocalMCPServer ::
  "jsstring \<Rightarrow> jsstring \<Rightarrow> jsstring \<Rightarrow> jsstring + 'n model \<Rightarrow> 'n server" where
  \<comment> \<open>the constructor, in the working directory \<open>cwd\<close> (an absolute path), with the
      value of \<open>GOOGLE_API_KEY\<close>; a client that cannot be built leaves \<open>gemini\<close> null\<close>
  "LocalMCPServer cwd rootArg apiKey sdk =
     \<lparr>root = path_resolve cwd rootArg,
      gemini = (case GeminiClient apiKey sdk of Inl e \<Rightarrow> None | Inr model \<Rightarrow> Some model)\<rparr>"

definition resolvePath :: "'n server \<Rightarrow> jsstring \<Rightarrow> tool_error + jsstring" where
  "resolvePath srv userPath =
     (let resolved = path_resolve (root srv) userPath in
      if resolved = root srv then Inr resolved
      else
        let relative = path_relative (root srv) resolved in
        if startsWith relative (js ''..'') \<or> path_isAbsolute relative then
          Inl (MCPServerError
                 (js ''Path '' @ quoted userPath @ js '' is outside of the server root.''))
        else Inr resolved)"

definition as_string :: "'n json option \<Rightarrow> jsstring" where
  \<comment> \<open>the string a value is, once \<open>typeof\<close> has said so\<close>
  "as_string v = (case v of Some (JStr s) \<Rightarrow> s | _ \<Rightarrow> [])"

definition as_number :: "'n json option \<Rightarrow> 'n option" where
  "as_number v = (case v of Some (JNum n) \<Rightarrow> Some n | _ \<Rightarrow> None)"

definition destructure_null :: "string \<Rightarrow> tool_error" where
  \<comment> \<open>destructuring \<open>null\<close> throws a TypeError that names the first property\<close>
  "destructure_null k =
     JsError (js ''Cannot destructure property '' @ quoted (js k) @ js '' of ''
              @ quoted (js ''args'') @ js '' as it is null.'')"

type_synonym 'n handler =
  "'n json \<Rightarrow> 'n world \<Rightarrow> (tool_error + tool_result) \<times> 'n world"

definition handleReadFile :: "'n server \<Rightarrow> 'n handler" where
  "handleReadFile srv args w =
     (if args = JNull then (Inl (destructure_null ''path''), w)
      else
        let userPath = js_get args (js ''path'') in
        if typeof userPath \<noteq> ''string'' then
          (Inl (MCPServerError (quoted (js ''path'') @ js '' must be a string.'')), w)
        else
          case resolvePath srv (as_string userPath) of
            Inl e \<Rightarrow> (Inl e, w)
          | Inr resolved \<Rightarrow>
              let w' = log (FsReadFile resolved) w in
              (case fs_readFile (files w) resolved of
                 Inr data \<Rightarrow> (Inr \<lparr>tool_text = data, isError = None\<rparr>, w')
               | Inl e \<Rightarrow>
                   if e = ENOENT then
                     (Inl (MCPServerError (js ''File not found: '' @ as_string userPath)), w')
                   else if e = EISDIR then
                     (Inl (MCPServerError (js ''Path is a directory: '' @ as_string userPath)), w')
                   else
                     (Inl (MCPServerError (js ''Failed to read file '' @ as_string userPath
                             @ js '': '' @ errno_message e ''open'' resolved)), w')))"

definition handleWriteFile :: "'n server \<Rightarrow> 'n handler" where
  "handleWriteFile srv args w =
     (if args = JNull then (Inl (destructure_null ''path''), w)
      else
        let userPath = js_get args (js ''path'');
            content = js_get args (js ''content'');
            createParents =
              (case js_get args (js ''create_parents'') of
                 None \<Rightarrow> Some (JBool False)
               | Some v \<Rightarrow> Some v)
        in
        if typeof userPath \<noteq> ''string'' then
          (Inl (MCPServerError (quoted (js ''path'') @ js '' must be a string.'')), w)
        else if typeof content \<noteq> ''string'' then
          (Inl (MCPServerError (quoted (js ''content'') @ js '' must be a string.'')), w)
        else if typeof createParents \<noteq> ''boolean'' then
          (Inl (MCPServerError (quoted (js ''create_parents'') @ js '' must be a boolean.'')), w)
        else
          case resolvePath srv (as_string userPath) of
            Inl e \<Rightarrow> (Inl e, w)
          | Inr resolved \<Rightarrow>
              (case (if createParents = Some (JBool True)
                     then (case fs_mkdir (files w) (path_dirname resolved) of
                             Inl e \<Rightarrow> Inl (e, log (FsMkdir (path_dirname resolved)) w)
                           | Inr fs' \<Rightarrow>
                               Inr (log (FsMkdir (path_dirname resolved)) (w\<lparr>files := fs'\<rparr>)))
                     else Inr w) of
                 Inl (e, w1) \<Rightarrow> (Inl (JsError (errno_message e ''mkdir'' (path_dirname resolved))), w1)
               | Inr w1 \<Rightarrow>
                   let w2 = log (FsWriteFile resolved) w1 in
                   (case fs_writeFile (files w1) resolved (as_string content) of
                      Inr fs' \<Rightarrow>
                        (Inr \<lparr>tool_text = js ''Wrote '' @ path_relative (root srv) resolved,
                              isError = None\<rparr>,
                         w2\<lparr>files := fs'\<rparr>)
                    | Inl e \<Rightarrow>
                        if e = EISDIR then
                          (Inl (MCPServerError
                                  (js ''Cannot write to directory path: '' @ as_string userPath)), w2)
                        else
                          (Inl (MCPServerError (js ''Failed to write file '' @ as_string userPath
                                  @ js '': '' @ errno_message e ''open'' resolved)), w2))))"

fun insert_sorted :: "('a \<Rightarrow> 'a \<Rightarrow> int) \<Rightarrow> 'a \<Rightarrow> 'a list \<Rightarrow> 'a list" where
  "insert_sorted cmp x [] = [x]"
| "insert_sorted cmp x (y # ys) =
     (if cmp x y \<le> 0 then x # y # ys else y # insert_sorted cmp x ys)"

definition array_sort :: "('a \<Rightarrow> 'a \<Rightarrow> int) \<Rightarrow> 'a list \<Rightarrow> 'a list" where
  \<comment> \<open>\<open>xs.sort(cmp)\<close>: the stable sort of the language, for a consistent comparator\<close>
  "array_sort cmp xs = foldr (insert_sorted cmp) xs []"

definition entry_label :: "dirent \<Rightarrow> jsstring" where
  \<comment> \<open>\<open>entry.isDirectory() ? `${entry.name}/` : entry.name\<close>\<close>
  "entry_label entry =
     (if isDirectory entry then dirent_name entry @ js ''/'' else dirent_name entry)"

definition handleListDir :: "'n platform \<Rightarrow> 'n server \<Rightarrow> 'n handler" where
  "handleListDir P srv args w =
     (let userPath =
            (case js_get args (js ''path'') of
               None \<Rightarrow> Some (JStr (js ''.''))
             | Some JNull \<Rightarrow> Some (JStr (js ''.''))
             | Some v \<Rightarrow> Some v)
      in
      if typeof userPath \<noteq> ''string'' then
        (Inl (MCPServerError (quoted (js ''path'') @ js '' must be a string.'')), w)
      else
        case resolvePath srv (as_string userPath) of
          Inl e \<Rightarrow> (Inl e, w)
        | Inr resolved \<Rightarrow>
            let w' = log (FsReaddir resolved) w in
            (case fs_readdir (files w) resolved of
               Inl e \<Rightarrow>
                 if e = ENOENT then
                   (Inl (MCPServerError (js ''Directory not found: '' @ as_string userPath)), w')
                 else
                   (Inl (MCPServerError (js ''Failed to list directory '' @ as_string userPath
                           @ js '': '' @ errno_message e ''scandir'' resolved)), w')
             | Inr entries \<Rightarrow>
                 let names = array_sort (localeCompare P) (map entry_label entries);
                     joined = join (js [CHR 0x0A]) names
                 in (Inr \<lparr>tool_text = (if joined = [] then js ''(empty)'' else joined),
                          isError = None\<rparr>, w')))"

definition handleCallGemini :: "'n server \<Rightarrow> 'n handler" where
  "handleCallGemini srv args w =
     (case gemini srv of
        None \<Rightarrow>
          (Inl (MCPServerError (js (''Gemini client is not configured. Ensure @google/generative-ai''
             @ '' is installed and GOOGLE_API_KEY is exported.''))), w)
      | Some model \<Rightarrow>
          if args = JNull then (Inl (destructure_null ''prompt''), w)
          else
            let prompt = js_get args (js ''prompt'');
                systemPrompt = js_get args (js ''system_prompt'');
                temp = js_get args (js ''temperature'');
                nucleus = js_get args (js ''top_p'')
            in
            if typeof prompt \<noteq> ''string'' then
              (Inl (MCPServerError (quoted (js ''prompt'') @ js '' must be a string.'')), w)
            else if systemPrompt \<noteq> None \<and> typeof systemPrompt \<noteq> ''string'' then
              (Inl (MCPServerError
                      (quoted (js ''system_prompt'') @ js '' must be a string when provided.'')), w)
            else if temp \<noteq> None \<and> typeof temp \<noteq> ''number'' then
              (Inl (MCPServerError
                      (quoted (js ''temperature'') @ js '' must be numeric when provided.'')), w)
            else if nucleus \<noteq> None \<and> typeof nucleus \<noteq> ''number'' then
              (Inl (MCPServerError
                      (quoted (js ''top_p'') @ js '' must be numeric when provided.'')), w)
            else
              (case GeminiClient_generate model (as_string prompt)
                      (map_option (\<lambda>v. as_string (Some v)) systemPrompt)
                      (as_number temp) (as_number nucleus) w of
                 (Inl e, w') \<Rightarrow> (Inl e, w')
               | (Inr t, w') \<Rightarrow> (Inr \<lparr>tool_text = t, isError = None\<rparr>, w')))"

section \<open>The tool registry\<close>

record 'n tool =
  tool_name :: jsstring
  description :: jsstring
  inputSchema :: "'n json"
  handler :: "'n handler"

definition schema_property :: "string \<Rightarrow> string \<Rightarrow> 'n json" where
  \<comment> \<open>\<open>{type: ..., description: ...}\<close>\<close>
  "schema_property ty d = JObj [(js ''type'', JStr (js ty)), (js ''description'', JStr (js d))]"

definition object_schema :: "(string \<times> 'n json) list \<Rightarrow> string list \<Rightarrow> 'n json" where
  \<comment> \<open>\<open>{type: "object", properties: ..., required: ..., additionalProperties: false}\<close>\<close>
  "object_schema props req =
     JObj [(js ''type'', JStr (js ''object'')),
           (js ''properties'', JObj (map (\<lambda>(k, v). (js k, v)) props)),
           (js ''required'', JArr (map (\<lambda>k. JStr (js k)) req)),
           (js ''additionalProperties'', JBool False)]"

definition tools :: "'n platform \<Rightarrow> 'n server \<Rightarrow> (jsstring \<times> 'n tool) list" where
  \<comment> \<open>the Map built by the constructor, in insertion order\<close>
  "tools P srv =
     [(js ''read_file'',
       \<lparr>tool_name = js ''read_file'',
        description = js ''Read a UTF-8 encoded text file relative to the server root.'',
        inputSchema = object_schema
          [(''path'', schema_property ''string'' ''Path relative to the configured root.'')]
          [''path''],
        handler = handleReadFile srv\<rparr>),
      (js ''write_file'',
       \<lparr>tool_name = js ''write_file'',
        description = js ''Write UTF-8 encoded content to a file relative to the server root.'',
        inputSchema = object_schema
          [(''path'', schema_property ''string'' ''Path relative to the configured root.''),
           (''content'', schema_property ''string'' ''Content that will replace the file.''),
           (''create_parents'',
              schema_property ''boolean'' ''Create parent directories when missing.'')]
          [''path'', ''content''],
        handler = handleWriteFile srv\<rparr>),
      (js ''list_dir'',
       \<lparr>tool_name = js ''list_dir'',
        description = js ''List files at a path relative to the server root.'',
        inputSchema = object_schema
          [(''path'', JObj [(js ''type'', JStr (js ''string'')),
              (js ''description'',
               JStr (js ''Directory path relative to the root. Defaults to '' @ quoted (js ''.'')
                     @ js ''.''))])]
          [],
        handler = handleListDir P srv\<rparr>),
      (js ''call_gemini'',
       \<lparr>tool_name = js ''call_gemini'',
        description =
          js ''Send a prompt to the Gemini Nano Banana model to create game assets.'',
        inputSchema = object_schema
          [(''prompt'', schema_property ''string'' ''User prompt sent to Gemini.''),
           (''system_prompt'',
              schema_property ''string'' ''Optional system prompt to guide Gemini.''),
           (''temperature'', schema_property ''number'' ''Sampling temperature (0.0-1.0).''),
           (''top_p'', schema_property ''number'' ''Top-p nucleus sampling threshold.'')]
          [''prompt''],
        handler = handleCallGemini srv\<rparr>)]"

definition tools_get :: "'n platform \<Rightarrow> 'n server \<Rightarrow> 'n json option \<Rightarrow> 'n tool option" where
  \<comment> \<open>\<open>this.tools.get(name)\<close>: the keys are strings, and only a string equals one\<close>
  "tools_get P srv name =
     (case name of Some (JStr s) \<Rightarrow> map_of (tools P srv) s | _ \<Rightarrow> None)"

section \<open>The protocol engine\<close>

datatype 'n response =
    Result (response_id: "'n json") (result: "'n json")
  | Error (response_id: "'n json") (code: int) (message: jsstring)
  \<comment> \<open>\<open>{jsonrpc: "2.0", id, result}\<close> and \<open>{jsonrpc: "2.0", id, error: {code, message}}\<close>\<close>

datatype crash = TypeError
  \<comment> \<open>an exception that nothing catches: the process ends with status 1\<close>

definition jsonrpcError :: "'n json \<Rightarrow> int \<Rightarrow> jsstring \<Rightarrow> 'n response" where
  "jsonrpcError rid c m = Error rid c m"

definition tool_envelope :: "jsstring \<Rightarrow> bool \<Rightarrow> 'n json" where
  \<comment> \<open>\<open>{content: [{type: "text", text}], isError}\<close>\<close>
  "tool_envelope t e =
     JObj [(js ''content'', JArr [JObj [(js ''type'', JStr (js ''text'')), (js ''text'', JStr t)]]),
           (js ''isError'', JBool e)]"

definition isArray :: "'n json \<Rightarrow> bool" where
  "isArray v = (case v of JArr xs \<Rightarrow> True | _ \<Rightarrow> False)"

definition handleRequest ::
  "'n platform \<Rightarrow> 'n server \<Rightarrow> 'n json \<Rightarrow> 'n json option \<Rightarrow> 'n json \<Rightarrow> 'n world
     \<Rightarrow> (crash + 'n response) \<times> 'n world" where
  "handleRequest P srv rid method params w =
     (if method = Some (JStr (js ''initialize'')) then
        (Inr (Result rid (JObj
           [(js ''protocolVersion'', JStr (js ''2024-01-01'')),
            (js ''capabilities'', JObj [(js ''tools'', JBool True)]),
            (js ''serverInfo'', JObj [(js ''name'', JStr (js ''assets-creator'')),
                                      (js ''version'', JStr (js ''0.1.0''))])])), w)
      else if method = Some (JStr (js ''tools/list'')) then
        (Inr (Result rid (JObj
           [(js ''tools'', JArr (map (\<lambda>(k, t). JObj
               [(js ''name'', JStr (tool_name t)),
                (js ''description'', JStr (description t)),
                (js ''inputSchema'', inputSchema t)]) (tools P srv))),
            (js ''nextCursor'', JNull)])), w)
      else if method = Some (JStr (js ''tools/call'')) then
        (let ps = (if params = JNull then JObj [] else params);
             name = js_get ps (js ''name'');
             args = (case js_get ps (js ''arguments'') of None \<Rightarrow> JObj [] | Some a \<Rightarrow> a)
         in case tools_get P srv name of
              None \<Rightarrow>
                (case template (Number_toString P) name of
                   None \<Rightarrow> (Inl TypeError, w)
                 | Some n \<Rightarrow>
                     (Inr (jsonrpcError rid (- 32601) (js ''Unknown tool '' @ quoted n @ js ''.'')),
                      w))
            | Some tool \<Rightarrow>
                if typeof (Some args) \<noteq> ''object'' \<or> args = JNull \<or> isArray args then
                  (Inr (jsonrpcError rid (- 32602) (js ''arguments must be an object.'')), w)
                else
                  (case handler tool args w of
                     (Inr toolResult, w') \<Rightarrow>
                       (Inr (Result rid (tool_envelope (tool_text toolResult)
                               (case isError toolResult of None \<Rightarrow> False | Some b \<Rightarrow> b))), w')
                   | (Inl (MCPServerError m), w') \<Rightarrow>
                       (Inr (Result rid (tool_envelope m True)), w')
                   | (Inl (JsError m), w') \<Rightarrow>
                       (Inr (Result rid (tool_envelope (js ''Tool failed: '' @ m) True)), w')))
      else if method = Some (JStr (js ''ping'')) then
        (Inr (Result rid (JStr (js ''pong''))), w)
      else if method = Some (JStr (js ''shutdown'')) then
        (Inr (Result rid JNull), w)
      else
        (case template (Number_toString P) method of
           None \<Rightarrow> (Inl TypeError, w)
         | Some m \<Rightarrow>
             (Inr (jsonrpcError rid (- 32601) (js ''Unsupported method '' @ quoted m @ js ''.'')),
              w)))"

datatype notified = Continue | Exit

definition handleNotification ::
  "'n platform \<Rightarrow> 'n json option \<Rightarrow> 'n json \<Rightarrow> crash + notified" where
  \<comment> \<open>the message for the debug log is built whether or not debugging is on\<close>
  "handleNotification P method params =
     (if method = Some (JStr (js ''initialized'')) then Inr Continue
      else if method = Some (JStr (js ''exit'')) then Inr Exit
      else case template (Number_toString P) method of
             None \<Rightarrow> Inl TypeError
           | Some m \<Rightarrow> Inr Continue)"

datatype ending = EndOfInput | Exited | Crashed
  \<comment> \<open>how a session ends: the input is exhausted, \<open>process.exit(0)\<close>, an uncaught
      exception\<close>

definition send :: "'n response \<Rightarrow> 'n response list \<times> ending \<times> 'n world
    \<Rightarrow> 'n response list \<times> ending \<times> 'n world" where
  \<comment> \<open>writes a line to the output, before what the rest of the session writes\<close>
  "send r rest = (case rest of (out, e, w) \<Rightarrow> (r # out, e, w))"

fun run :: "'n platform \<Rightarrow> 'n server \<Rightarrow> jsstring list \<Rightarrow> 'n world
    \<Rightarrow> 'n response list \<times> ending \<times> 'n world" where
  \<comment> \<open>the session on the lines of the input: the responses written, how it ended, and
      the world it left\<close>
  "run P srv [] w = ([], EndOfInput, w)"
| "run P srv (rawLine # rest) w =
     (let line = trim rawLine in
      if line = [] then run P srv rest w
      else
        case JSON_parse P line of
          None \<Rightarrow> send (Error JNull (- 32700) (js ''Invalid JSON received.'')) (run P srv rest w)
        | Some msg \<Rightarrow>
            if typeof (Some msg) \<noteq> ''object'' \<or> msg = JNull then run P srv rest w
            else if has_in (js ''method'') msg then
              (let method = js_get msg (js ''method'');
                   params = (case js_get msg (js ''params'') of None \<Rightarrow> JObj [] | Some p \<Rightarrow> p)
               in case js_get msg (js ''id'') of
                    Some rid \<Rightarrow>
                      (case handleRequest P srv rid method params w of
                         (Inl TypeError, w') \<Rightarrow> ([], Crashed, w')
                       | (Inr response, w') \<Rightarrow> send response (run P srv rest w'))
                  | None \<Rightarrow>
                      (case handleNotification P method params of
                         Inl TypeError \<Rightarrow> ([], Crashed, w)
                       | Inr Exit \<Rightarrow> ([], Exited, w)
                       | Inr Continue \<Rightarrow> run P srv rest w))
            else run P srv rest w)"

section \<open>Notions the properties are stated with\<close>

definition nested_under :: "jsstring \<Rightarrow> jsstring \<Rightarrow> bool" where
  \<comment> \<open>the path \<open>q\<close> lies below the directory \<open>rt\<close>, both absolute\<close>
  "nested_under rt q = strict_prefix (segments rt) (segments q)"

definition within :: "jsstring \<Rightarrow> jsstring \<Rightarrow> bool" where
  \<comment> \<open>\<open>q\<close> is \<open>rt\<close> or lies below it\<close>
  "within rt q = (q = rt \<or> nested_under rt q)"

definition clean :: "jsstring list \<Rightarrow> bool" where
  \<comment> \<open>the segments of a normalised path\<close>
  "clean segs = (\<forall>s \<in> set segs. s \<noteq> [] \<and> 0x2F \<notin> set s \<and> s \<noteq> js ''.'' \<and> s \<noteq> js ''..'')"

fun well_formed :: "jsstring \<Rightarrow> bool" where
  \<comment> \<open>well-formed UTF-16: every surrogate is half of a pair\<close>
  "well_formed [] = True"
| "well_formed (c # cs) =
     (if isHigh c then (case cs of [] \<Rightarrow> False | d # ds \<Rightarrow> isLow d \<and> well_formed ds)
      else \<not> isLow c \<and> well_formed cs)"

definition declared :: "'n tool \<Rightarrow> (jsstring \<times> jsstring) list" where
  \<comment> \<open>the fields an input schema declares, each with its type\<close>
  "declared t =
     (case js_get (inputSchema t) (js ''properties'') of
        Some (JObj ps) \<Rightarrow> map (\<lambda>(k, v). (k, as_string (js_get v (js ''type'')))) ps
      | _ \<Rightarrow> [])"

definition required :: "'n tool \<Rightarrow> jsstring list" where
  \<comment> \<open>the fields an input schema requires\<close>
  "required t =
     (case js_get (inputSchema t) (js ''required'') of
        Some (JArr xs) \<Rightarrow> map (\<lambda>x. as_string (Some x)) xs
      | _ \<Rightarrow> [])"

definition rejects :: "'n tool \<Rightarrow> 'n json \<Rightarrow> jsstring \<times> jsstring \<Rightarrow> bool" where
  \<comment> \<open>the arguments get a declared field wrong: its value is not of the declared type,
      and the field is present or required\<close>
  "rejects t args fd =
     (js (typeof (js_get args (fst fd))) \<noteq> snd fd
      \<and> (js_get args (fst fd) \<noteq> None \<or> fst fd \<in> set (required t)))"

definition check_texts :: "jsstring set" where
  \<comment> \<open>what the messages of the type checks say after the name of the field\<close>
  "check_texts = {js '' must be a string.'', js '' must be a boolean.'',
     js '' must be a string when provided.'', js '' must be numeric when provided.''}"

definition consistent :: "('a \<Rightarrow> 'a \<Rightarrow> int) \<Rightarrow> bool" where
  \<comment> \<open>a comparator that orders: \<open>a\<close> is before \<open>b\<close> exactly when \<open>b\<close> is after \<open>a\<close>, and
      the order is transitive\<close>
  "consistent cmp =
     ((\<forall>a b. (cmp a b < 0) = (0 < cmp b a)) \<and>
      (\<forall>a b c. cmp a b \<le> 0 \<longrightarrow> cmp b c \<le> 0 \<longrightarrow> cmp a c \<le> 0))"

section \<open>Sample inputs\<close>

fun decimal :: "nat \<Rightarrow> jsstring" where
  "decimal n =
     (if n < 10 then [of_nat (48 + n)] else decimal (n div 10) @ [of_nat (48 + n mod 10)])"

fun unit_compare :: "jsstring \<Rightarrow> jsstring \<Rightarrow> int" where
  \<comment> \<open>the order of the code units\<close>
  "unit_compare [] [] = 0"
| "unit_compare [] (y # ys) = - 1"
| "unit_compare (x # xs) [] = 1"
| "unit_compare (x # xs) (y # ys) =
     (if x < y then - 1 else if y < x then 1 else unit_compare xs ys)"

definition sample_parse :: "jsstring \<Rightarrow> nat json option" where
  \<comment> \<open>\<open>JSON.parse\<close> on the lines of the examples; any other line is taken as ill-formed\<close>
  \<open>sample_parse l =
     (if l = js ''{"id":1,"method":"ping"}'' then
        Some (JObj [(js ''id'', JNum 1), (js ''method'', JStr (js ''ping''))])
      else if l = js ''{"id":7,"method":{"toString":0}}'' then
        Some (JObj [(js ''id'', JNum 7), (js ''method'', JObj [(js ''toString'', JNum 0)])])
      else if l = js ''{"id":null,"method":{"toString":0}}'' then
        Some (JObj [(js ''id'', JNull), (js ''method'', JObj [(js ''toString'', JNum 0)])])
      else if l = js ''{"id":null,"method":"ping"}'' then
        Some (JObj [(js ''id'', JNull), (js ''method'', JStr (js ''ping''))])
      else if l = js ''{"id":3,"method":"tools/call","params":{"name":{"toString":0}}}'' then
        Some (JObj [(js ''id'', JNum 3), (js ''method'', JStr (js ''tools/call'')),
                    (js ''params'', JObj [(js ''name'', JObj [(js ''toString'', JNum 0)])])])
      else if l = js ''{"id":4,"method":"tools/call","params":{"name":"nonexistent_tool"}}'' then
        Some (JObj [(js ''id'', JNum 4), (js ''method'', JStr (js ''tools/call'')),
                    (js ''params'', JObj [(js ''name'', JStr (js ''nonexistent_tool''))])])
      else None)\<close>

definition sample_platform :: "nat platform" where
  "sample_platform =
     \<lparr>JSON_parse = sample_parse, Number_toString = decimal, localeCompare = unit_compare\<rparr>"

definition sandbox :: "nat server" where
  \<comment> \<open>a server with root \<open>/sandbox\<close> and no API key\<close>
  "sandbox = LocalMCPServer (js ''/'') (js ''/sandbox'') [] (Inl [])"

definition sandbox_gemini :: "nat server" where
  \<comment> \<open>the same with a model that answers \<open>ok\<close>\<close>
  "sandbox_gemini =
     LocalMCPServer (js ''/'') (js ''/sandbox'') (js ''key'') (Inr (\<lambda>request. Text (js ''ok'')))"

definition disk :: node where
  \<comment> \<open>\<open>/sandbox\<close> with the file \<open>b.txt\<close> and the directory \<open>a\<close>\<close>
  "disk = Dir [(js ''sandbox'', Dir [(js ''b.txt'', File []), (js ''a'', Dir [])])]"

definition world0 :: "nat world" where
  "world0 = \<lparr>files = disk, effects = []\<rparr>"

definition world_cache :: "nat world" where
  \<comment> \<open>\<open>/sandbox\<close> with the directory \<open>..cache\<close>, which holds the file \<open>x.txt\<close>\<close>
  "world_cache =
     \<lparr>files = Dir [(js ''sandbox'', Dir [(js ''..cache'', Dir [(js ''x.txt'', File [])])])],
      effects = []\<rparr>"

section \<open>The session loop\<close>

lemma fst_send: "fst (send r rest) = r # fst rest"
  by (cases rest) (simp add: send_def)

lemma snd_send: "snd (send r rest) = snd rest"
  by (cases rest) (simp add: send_def)

text \<open>
  C6. A line that is not empty once trimmed and that \<open>JSON.parse\<close> rejects makes the
  engine write one error response with id \<open>null\<close> and code \<open>-32700\<close>; the session then
  goes on exactly as it would on the remaining lines: what it writes after the error,
  how it ends and the world it leaves are those of the rest of the input.
\<close>

theorem run_invalid_json:
  assumes "trim rawLine \<noteq> []" and "JSON_parse P (trim rawLine) = None"
  shows "fst (run P srv (rawLine # rest) w)
           = Error JNull (- 32700) (js ''Invalid JSON received.'') # fst (run P srv rest w)
         \<and> snd (run P srv (rawLine # rest) w) = snd (run P srv rest w)"
  using assms by (simp add: fst_send snd_send)

theorem run_invalid_json_witness:
  \<open>trim (js ''not json'') \<noteq> []
   \<and> JSON_parse sample_platform (trim (js ''not json'')) = None
   \<and> fst (run sample_platform sandbox [js ''not json'', js ''{"id":1,"method":"ping"}''] world0)
       = [Error JNull (- 32700) (js ''Invalid JSON received.''),
          Result (JNum 1) (JStr (js ''pong''))]\<close>
proof -
  have h1: "trim (js ''not json'') \<noteq> []" by code_simp
  have h2: "JSON_parse sample_platform (trim (js ''not json'')) = None" by code_simp
  have rest: \<open>fst (run sample_platform sandbox [js ''{"id":1,"method":"ping"}''] world0)
      = [Result (JNum 1) (JStr (js ''pong''))]\<close>
    by code_simp
  have \<open>fst (run sample_platform sandbox [js ''not json'', js ''{"id":1,"method":"ping"}''] world0)
      = Error JNull (- 32700) (js ''Invalid JSON received.'')
        # fst (run sample_platform sandbox [js ''{"id":1,"method":"ping"}''] world0)\<close>
    using run_invalid_json [OF h1 h2] by (rule conjunct1)
  then show ?thesis using h1 h2 rest by (simp only: simp_thms)
qed

text \<open>
  C2. Every line that parses to an object with a \<open>method\<close> field and an \<open>id\<close> should be
  answered by exactly one response with that id. The request below has the id 7 and a
  method that cannot be converted to a string: building the message of the error
  response throws a TypeError that nothing catches, so the session ends without any
  response, and the well-formed request on the next line is never read.
\<close>

theorem request_left_unanswered:
  \<open>run sample_platform sandbox
     [js ''{"id":7,"method":{"toString":0}}'', js ''{"id":1,"method":"ping"}''] world0
   = ([], Crashed, world0)\<close>
  by code_simp

text \<open>
  C5. A \<open>tools/call\<close> request whose \<open>name\<close> is not a registered tool should be answered
  by an error response with code \<open>-32601\<close>. The name below is an object that cannot be
  converted to a string: the message \<open>Unknown tool '...'\<close> cannot be built, the TypeError
  is not caught, and no response is written.
\<close>

theorem unknown_tool_left_unanswered:
  \<open>run sample_platform sandbox
     [js ''{"id":3,"method":"tools/call","params":{"name":{"toString":0}}}''] world0
   = ([], Crashed, world0)\<close>
  by code_simp

text \<open>
  C10. A message with a \<open>method\<close> field and the id \<open>null\<close> is handled as a request and
  should be answered by exactly one response with id \<open>null\<close>. With a method that cannot be
  converted to a string the request is dispatched to \<open>handleRequest\<close>, which throws, and
  no response is written; with the method \<open>ping\<close> the response with id \<open>null\<close> is written.
\<close>

theorem null_id_request_left_unanswered:
  \<open>run sample_platform sandbox [js ''{"id":null,"method":{"toString":0}}''] world0
     = ([], Crashed, world0)
   \<and> run sample_platform sandbox [js ''{"id":null,"method":"ping"}''] world0
     = ([Result JNull (JStr (js ''pong''))], EndOfInput, world0)\<close>
  by code_simp

section \<open>Paths\<close>

lemma js_simps: "js [] = []" "js (c # cs) = of_nat (of_char c) # js cs"
  by (simp_all add: js_def)

lemma dot_no_slash: "(0x2F::jschar) \<notin> set (js ''.'')" "(0x2F::jschar) \<notin> set (js ''..'')"
  by (simp_all add: js_simps)

lemma render_alt: "render segs = (if segs = [] then [0x2F] else concat (map ((#) 0x2F) segs))"
proof -
  have "(@) [0x2F::jschar] = (#) 0x2F" by (rule ext) simp
  then show ?thesis by (simp add: render_def js_simps)
qed

lemma split_slash_not_Nil [simp]: "split_slash p \<noteq> []"
  by (induction p) (auto split: list.splits)

lemma split_slash_no_slash: "s \<in> set (split_slash p) \<Longrightarrow> 0x2F \<notin> set s"
  by (induction p arbitrary: s) (auto split: list.splits if_splits)

lemma segments_ok: "s \<in> set (segments p) \<Longrightarrow> s \<noteq> [] \<and> 0x2F \<notin> set s"
  by (auto simp: segments_def dest: split_slash_no_slash)

lemma split_slash_plain: "0x2F \<notin> set s \<Longrightarrow> split_slash s = [s]"
  by (induction s) auto

lemma split_slash_append: "0x2F \<notin> set s \<Longrightarrow> split_slash (s @ 0x2F # r) = s # split_slash r"
  by (induction s) (auto split: list.splits)

lemma clean_Nil [simp]: "clean []"
  by (simp add: clean_def)

lemma clean_Cons: "clean (s # ss) = (s \<noteq> [] \<and> 0x2F \<notin> set s \<and> s \<noteq> js ''.'' \<and> s \<noteq> js ''..'' \<and> clean ss)"
  by (auto simp: clean_def)

lemma clean_append: "clean (xs @ ys) = (clean xs \<and> clean ys)"
  by (auto simp: clean_def)

lemma clean_rev: "clean (rev xs) = clean xs"
  by (auto simp: clean_def)

lemma clean_drop: "clean xs \<Longrightarrow> clean (drop n xs)"
  by (auto simp: clean_def dest: in_set_dropD)

lemma normalizeString_clean:
  "clean acc \<Longrightarrow> \<forall>s \<in> set xs. s \<noteq> [] \<and> 0x2F \<notin> set s \<Longrightarrow> clean (normalizeString acc xs)"
proof (induction xs arbitrary: acc)
  case Nil
  then show ?case by (simp add: clean_rev)
next
  case (Cons x xs)
  then show ?case by (simp add: clean_drop clean_Cons)
qed

lemma normalizeString_id: "clean segs \<Longrightarrow> normalizeString acc segs = rev acc @ segs"
  by (induction segs arbitrary: acc) (simp_all add: clean_Cons)

lemma concat_segments:
  "clean segs \<Longrightarrow> segments (concat (map ((#) 0x2F) segs)) = segs"
proof (induction segs)
  case Nil
  show ?case by (simp add: segments_def)
next
  case (Cons s ss)
  then have s: "s \<noteq> []" "0x2F \<notin> set s" and ss: "clean ss" by (simp_all add: clean_Cons)
  show ?case
  proof (cases ss)
    case Nil
    then show ?thesis using s by (simp add: segments_def split_slash_plain)
  next
    case (Cons t ts)
    then have "concat (map ((#) 0x2F) ss) = 0x2F # t @ concat (map ((#) 0x2F) ts)"
      by simp
    then show ?thesis
      using s Cons.IH [OF ss] by (simp add: segments_def split_slash_append)
  qed
qed

lemma segments_render: "clean segs \<Longrightarrow> segments (render segs) = segs"
  using concat_segments [of segs] by (auto simp: render_alt segments_def)

lemma render_inject: "clean a \<Longrightarrow> clean b \<Longrightarrow> render a = render b \<Longrightarrow> a = b"
  by (metis segments_render)

lemma path_resolve_clean: "\<exists>segs. clean segs \<and> path_resolve base p = render segs"
proof -
  let ?xs = "if path_isAbsolute p then segments p else segments base @ segments p"
  have "\<forall>s \<in> set ?xs. s \<noteq> [] \<and> 0x2F \<notin> set s" by (auto dest: segments_ok)
  then have "clean (normalizeString [] ?xs)" by (intro normalizeString_clean) simp_all
  then show ?thesis unfolding path_resolve_def by blast
qed

lemma strip_common_Nil: "strip_common a b = (up, down) \<Longrightarrow> (up = []) = prefix a b"
  by (induction a b rule: strip_common.induct) (auto split: if_splits)

lemma strip_common_eq: "strip_common a b = ([], []) \<Longrightarrow> a = b"
  by (induction a b rule: strip_common.induct) (auto split: if_splits)

lemma join_Cons: "join sep (x # xs) = (if xs = [] then x else x @ sep @ join sep xs)"
  by (cases xs) simp_all

lemma startsWith_dotdot:
  "up \<noteq> [] \<Longrightarrow> startsWith (join (js ''/'') (map (\<lambda>_. js ''..'') up @ down)) (js ''..'')"
  by (cases up) (simp_all add: join_Cons startsWith_def js_simps)

lemma path_relative_render:
  assumes "clean a" "clean b"
  shows "path_relative (render a) (render b)
         = (case strip_common a b of (up, down) \<Rightarrow> join (js ''/'') (map (\<lambda>_. js ''..'') up @ down))"
  using assms by (simp add: path_relative_def segments_render normalizeString_id)

section \<open>Path confinement\<close>

lemma resolvePath_Inr: "resolvePath srv p = Inr q \<Longrightarrow> q = path_resolve (root srv) p"
  by (auto simp: resolvePath_def Let_def split: if_splits)

lemma resolvePath_outside:
  assumes R: "clean R" "root srv = render R"
    and out: "\<not> within (root srv) (path_resolve (root srv) p)"
  shows "resolvePath srv p
         = Inl (MCPServerError (js ''Path '' @ quoted p @ js '' is outside of the server root.''))"
proof -
  obtain Q where Q: "clean Q" "path_resolve (root srv) p = render Q"
    using path_resolve_clean by blast
  have ne: "render Q \<noteq> render R" using out Q R by (simp add: within_def)
  have "\<not> strict_prefix R Q"
    using out Q R by (simp add: within_def nested_under_def segments_render)
  moreover have "R \<noteq> Q" using ne by auto
  ultimately have np: "\<not> prefix R Q" by (simp add: strict_prefix_def)
  obtain up down where sc: "strip_common R Q = (up, down)" by (cases "strip_common R Q")
  then have "up \<noteq> []" using np strip_common_Nil by blast
  then have "startsWith (path_relative (render R) (render Q)) (js ''..'')"
    using R Q sc by (simp add: path_relative_render startsWith_dotdot)
  then show ?thesis using ne Q R by (simp add: resolvePath_def Let_def)
qed

lemma resolvePath_within:
  assumes "clean R" "root srv = render R" "resolvePath srv p = Inr q"
  shows "within (root srv) q"
proof (rule ccontr)
  assume "\<not> within (root srv) q"
  then have "\<not> within (root srv) (path_resolve (root srv) p)"
    using resolvePath_Inr [OF assms(3)] by simp
  from resolvePath_outside [OF assms(1,2) this] assms(3) show False by simp
qed

lemma root_LocalMCPServer:
  "\<exists>R. clean R \<and> root (LocalMCPServer cwd r k sdk) = render R"
  using path_resolve_clean [of cwd r] by (simp add: LocalMCPServer_def)

lemma typeof_string: "typeof v = ''string'' \<longleftrightarrow> (\<exists>s. v = Some (JStr s))"
  by (cases v rule: typeof.cases) simp_all

lemma typeof_boolean: "typeof v = ''boolean'' \<longleftrightarrow> (\<exists>b. v = Some (JBool b))"
  by (cases v rule: typeof.cases) simp_all

lemma typeof_number: "typeof v = ''number'' \<longleftrightarrow> (\<exists>n. v = Some (JNum n))"
  by (cases v rule: typeof.cases) simp_all

lemma handleWriteFile_rejects:
  fixes srv :: "'n server"
  assumes srv: "srv = LocalMCPServer cwd r k sdk"
    and bad: "typeof (js_get args (js ''path'')) \<noteq> ''string''
       \<or> typeof (js_get args (js ''content'')) \<noteq> ''string''
       \<or> (js_get args (js ''create_parents'') \<noteq> None
            \<and> typeof (js_get args (js ''create_parents'')) \<noteq> ''boolean'')
       \<or> \<not> within (root srv) (path_resolve (root srv) (as_string (js_get args (js ''path''))))"
  shows "\<exists>e. handleWriteFile srv args w = (Inl e, w)"
proof -
  obtain R where R: "clean R" "root srv = render R"
    using root_LocalMCPServer srv by blast
  let ?cp = "case js_get args (js ''create_parents'') of None \<Rightarrow> Some (JBool False) | Some v \<Rightarrow> Some v"
  show ?thesis
  proof (cases "args = JNull \<or> typeof (js_get args (js ''path'')) \<noteq> ''string''
       \<or> typeof (js_get args (js ''content'')) \<noteq> ''string'' \<or> typeof ?cp \<noteq> ''boolean''")
    case True
    then show ?thesis by (auto simp: handleWriteFile_def Let_def)
  next
    case False
    then have cp: "js_get args (js ''create_parents'') = None
        \<or> typeof (js_get args (js ''create_parents'')) = ''boolean''"
      by (auto split: option.splits)
    with False bad have
      "\<not> within (root srv) (path_resolve (root srv) (as_string (js_get args (js ''path''))))"
      by auto
    from resolvePath_outside [OF R this] False show ?thesis
      by (simp add: handleWriteFile_def Let_def)
  qed
qed

text \<open>
  C7. A \<open>write_file\<close> call whose \<open>path\<close> or \<open>content\<close> is not a string, whose
  \<open>create_parents\<close> is present and not a boolean, or whose path resolves outside the root
  fails and leaves the world as it was: the file system is unchanged, and no call to the
  \<open>fs\<close> module has been made (no file written, no directory created).
\<close>

theorem write_file_rejected_before_any_effect:
  assumes "typeof (js_get args (js ''path'')) \<noteq> ''string''
       \<or> typeof (js_get args (js ''content'')) \<noteq> ''string''
       \<or> (js_get args (js ''create_parents'') \<noteq> None
            \<and> typeof (js_get args (js ''create_parents'')) \<noteq> ''boolean'')
       \<or> \<not> within (root (LocalMCPServer cwd r k sdk))
              (path_resolve (root (LocalMCPServer cwd r k sdk))
                 (as_string (js_get args (js ''path''))))"
  shows "\<exists>e. handleWriteFile (LocalMCPServer cwd r k sdk) args w = (Inl e, w)"
  using assms by (intro handleWriteFile_rejects [OF refl])

theorem write_file_rejected_before_any_effect_witness:
  "\<not> within (root sandbox)
        (path_resolve (root sandbox)
           (as_string (js_get (JObj [(js ''path'', JStr (js ''../x'')),
              (js ''content'', JStr (js ''hi'')), (js ''create_parents'', JBool True)] :: nat json)
              (js ''path''))))
   \<and> (\<exists>e. handleWriteFile sandbox
          (JObj [(js ''path'', JStr (js ''../x'')), (js ''content'', JStr (js ''hi'')),
                 (js ''create_parents'', JBool True)]) world0 = (Inl e, world0))"
proof -
  let ?args = "JObj [(js ''path'', JStr (js ''../x'')), (js ''content'', JStr (js ''hi'')),
                 (js ''create_parents'', JBool True)] :: nat json"
  have h: "\<not> within (root sandbox)
      (path_resolve (root sandbox) (as_string (js_get ?args (js ''path''))))"
    by code_simp
  from h have "\<exists>e. handleWriteFile sandbox ?args world0 = (Inl e, world0)"
    unfolding sandbox_def by (intro write_file_rejected_before_any_effect) simp
  with h show ?thesis by (rule conjI)
qed

section \<open>String literals\<close>

lemma unit_of_char_inject:
  "(of_nat (of_char c) :: jschar) = of_nat (of_char d) \<longleftrightarrow> c = d"
proof
  assume "(of_nat (of_char c) :: jschar) = of_nat (of_char d)"
  then have "unat (of_nat (of_char c) :: jschar) = unat (of_nat (of_char d) :: jschar)" by simp
  moreover have "of_char c < (65536::nat)" "of_char d < (65536::nat)"
    using nat_of_char_less_256 [of c] nat_of_char_less_256 [of d] by linarith+
  ultimately have "(of_char c :: nat) = of_char d" by (simp add: unat_of_nat)
  then show "c = d" by simp
qed simp

lemma js_inject [simp]: "js a = js b \<longleftrightarrow> a = b"
proof (induction a arbitrary: b)
  case Nil
  show ?case by (cases b) (simp_all add: js_def)
next
  case (Cons c cs)
  show ?case
  proof (cases b)
    case Nil
    then show ?thesis by (simp add: js_def)
  next
    case (Cons d ds)
    then show ?thesis using Cons.IH [of ds] by (simp add: js_simps unit_of_char_inject)
  qed
qed

lemma js_append [simp]: "js a @ js b = js (a @ b)"
  by (simp add: js_def)

lemma js_Nil [simp]: "js s = [] \<longleftrightarrow> s = []" "[] = js s \<longleftrightarrow> s = []"
  by (auto simp: js_def)

section \<open>UTF-8 decodes what it encoded\<close>

lemma unat_byte_of: "n < 256 \<Longrightarrow> unat (byte_of n) = n"
  by (simp add: byte_of_def unat_of_nat)

lemma in_range_byte_of: "n < 256 \<Longrightarrow> in_range (byte_of n) lo hi = (lo \<le> n \<and> n \<le> hi)"
  by (simp add: in_range_def unat_byte_of)

lemma mod64_tail: "(128 + (b::nat) mod 64) mod 64 = b mod 64"
proof -
  have "(128 + b mod 64) mod 64 = (2 * 64 + b mod 64) mod 64" by simp
  also have "\<dots> = b mod 64" by (simp only: mod_mult_self3 mod_mod_trivial)
  finally show ?thesis .
qed

lemma tail_byte:
  "in_range (byte_of (128 + n mod 64)) 0x80 0xBF" "bits (byte_of (128 + n mod 64)) = n mod 64"
proof -
  have "n mod 64 < 64" by simp
  then have k: "128 + n mod 64 < 256" "128 + n mod 64 \<le> 191" by linarith+
  show "in_range (byte_of (128 + n mod 64)) 0x80 0xBF"
    using k by (simp add: in_range_byte_of)
  show "bits (byte_of (128 + n mod 64)) = n mod 64"
    using k(1) by (simp only: bits_def unat_byte_of mod64_tail)
qed

lemma decode_ascii:
  "in_range b 0 0x7F \<Longrightarrow> utf8_decode (b # bs) = unit_of (unat b) # utf8_decode bs"
  by simp

lemma decode_two:
  assumes "in_range b 0xC2 0xDF" "in_range b1 0x80 0xBF"
  shows "utf8_decode (b # b1 # bs) = from_cp ((unat b - 0xC0) * 0x40 + bits b1) @ utf8_decode bs"
proof -
  have "\<not> in_range b 0 0x7F" using assms(1) by (simp add: in_range_def)
  then show ?thesis using assms by simp
qed

lemma decode_three:
  assumes "in_range b 0xE0 0xEF" "in_range b1 (second_lo b) (second_hi b)" "in_range b2 0x80 0xBF"
  shows "utf8_decode (b # b1 # b2 # bs) =
         from_cp ((unat b - 0xE0) * 0x1000 + bits b1 * 0x40 + bits b2) @ utf8_decode bs"
proof -
  have "\<not> in_range b 0 0x7F" "\<not> in_range b 0xC2 0xDF"
    using assms(1) by (simp_all add: in_range_def)
  then show ?thesis using assms by simp
qed

lemma decode_four:
  assumes "in_range b 0xF0 0xF4" "in_range b1 (second_lo b) (second_hi b)"
    "in_range b2 0x80 0xBF" "in_range b3 0x80 0xBF"
  shows "utf8_decode (b # b1 # b2 # b3 # bs) =
         from_cp ((unat b - 0xF0) * 0x40000 + bits b1 * 0x1000 + bits b2 * 0x40 + bits b3)
           @ utf8_decode bs"
proof -
  have "\<not> in_range b 0 0x7F" "\<not> in_range b 0xC2 0xDF" "\<not> in_range b 0xE0 0xEF"
    using assms(1) by (simp_all add: in_range_def)
  then show ?thesis using assms by simp
qed

lemma decode_encode_1:
  assumes "u < 0x80"
  shows "utf8_decode (encode_cp u @ bs) = from_cp u @ utf8_decode bs"
proof -
  have e: "encode_cp u = [byte_of u]" using assms by (simp add: encode_cp_def)
  have k: "u < 256" using assms by linarith
  have r: "in_range (byte_of u) 0 0x7F" using assms k by (simp add: in_range_byte_of)
  have f: "from_cp u = [unit_of u]" using assms by (simp add: from_cp_def)
  show ?thesis
    unfolding e f using decode_ascii [OF r, of bs] k by (simp add: unat_byte_of del: utf8_decode.simps)
qed

lemma decode_encode_2:
  assumes "0x80 \<le> u" "u < 0x800"
  shows "utf8_decode (encode_cp u @ bs) = from_cp u @ utf8_decode bs"
proof -
  define x where "x = u div 64"
  define c where "c = u mod 64"
  have u: "u = x * 64 + c" and c: "c < 64" by (simp_all add: x_def c_def)
  have e: "encode_cp u = [byte_of (192 + x), byte_of (128 + u mod 64)]"
    using assms by (simp add: encode_cp_def x_def)
  have k: "192 + x < 256" "194 \<le> 192 + x" "192 + x \<le> 223" using assms u c by linarith+
  have r: "in_range (byte_of (192 + x)) 0xC2 0xDF" using k by (simp add: in_range_byte_of)
  have v: "(unat (byte_of (192 + x)) - 0xC0) * 0x40 + bits (byte_of (128 + u mod 64)) = u"
    using k(1) u by (simp add: unat_byte_of tail_byte c_def)
  show ?thesis
    unfolding e using decode_two [OF r tail_byte(1), of u bs] v by simp
qed

lemma decode_encode_3:
  assumes "0x800 \<le> u" "u < 0x10000" "\<not> (0xD800 \<le> u \<and> u \<le> 0xDFFF)"
  shows "utf8_decode (encode_cp u @ bs) = from_cp u @ utf8_decode bs"
proof -
  define x where "x = u div 64"
  define a where "a = x div 64"
  have u: "u = x * 64 + u mod 64" and x: "x = a * 64 + x mod 64"
    and c: "u mod 64 < 64" and b: "x mod 64 < 64"
    by (simp_all add: x_def a_def)
  have d: "u div 4096 = a" by (simp add: a_def x_def div_mult2_eq[symmetric])
  have e: "encode_cp u = [byte_of (224 + a), byte_of (128 + x mod 64), byte_of (128 + u mod 64)]"
    using assms(1,2) d by (simp add: encode_cp_def x_def)
  have k: "224 + a < 256" "224 \<le> 224 + a" "224 + a \<le> 239"
    "a = 0 \<longrightarrow> 32 \<le> x mod 64" "a = 13 \<longrightarrow> x mod 64 < 32"
    using assms u x c b by linarith+
  have r: "in_range (byte_of (224 + a)) 0xE0 0xEF" using k by (simp add: in_range_byte_of)
  have k2: "128 + x mod 64 < 256" using b by linarith
  have s: "in_range (byte_of (128 + x mod 64)) (second_lo (byte_of (224 + a))) (second_hi (byte_of (224 + a)))"
    using k k2 b by (auto simp add: in_range_byte_of second_lo_def second_hi_def unat_byte_of)
  have "a * 4096 + x mod 64 * 64 + u mod 64 = u" using u x by linarith
  then have v: "(unat (byte_of (224 + a)) - 0xE0) * 0x1000 + bits (byte_of (128 + x mod 64)) * 0x40
      + bits (byte_of (128 + u mod 64)) = u"
    using k(1) by (simp add: unat_byte_of tail_byte)
  show ?thesis
    unfolding e using decode_three [OF r s tail_byte(1), of u bs] v by simp
qed

lemma decode_encode_4:
  assumes "0x10000 \<le> u" "u < 0x110000"
  shows "utf8_decode (encode_cp u @ bs) = from_cp u @ utf8_decode bs"
proof -
  define x where "x = u div 64"
  define y where "y = x div 64"
  define a where "a = y div 64"
  have u: "u = x * 64 + u mod 64" and x: "x = y * 64 + x mod 64" and y: "y = a * 64 + y mod 64"
    and c: "u mod 64 < 64" and b: "x mod 64 < 64" and b': "y mod 64 < 64"
    by (simp_all add: x_def a_def y_def)
  have d: "u div 262144 = a" "u div 4096 = y"
    by (simp_all add: a_def x_def y_def div_mult2_eq[symmetric])
  have e: "encode_cp u = [byte_of (240 + a), byte_of (128 + y mod 64), byte_of (128 + x mod 64),
       byte_of (128 + u mod 64)]"
    using assms(1) d by (simp add: encode_cp_def x_def)
  have k: "240 + a < 256" "240 \<le> 240 + a" "240 + a \<le> 244"
    "a = 0 \<longrightarrow> 16 \<le> y mod 64" "a = 4 \<longrightarrow> y mod 64 < 16"
    using assms u x y c b b' by linarith+
  have r: "in_range (byte_of (240 + a)) 0xF0 0xF4" using k by (simp add: in_range_byte_of)
  have k2: "128 + y mod 64 < 256" using b' by linarith
  have s: "in_range (byte_of (128 + y mod 64)) (second_lo (byte_of (240 + a))) (second_hi (byte_of (240 + a)))"
    using k k2 b' by (auto simp add: in_range_byte_of second_lo_def second_hi_def unat_byte_of)
  have "a * 262144 + y mod 64 * 4096 + x mod 64 * 64 + u mod 64 = u" using u x y by linarith
  then have v: "(unat (byte_of (240 + a)) - 0xF0) * 0x40000 + bits (byte_of (128 + y mod 64)) * 0x1000
      + bits (byte_of (128 + x mod 64)) * 0x40 + bits (byte_of (128 + u mod 64)) = u"
    using k(1) by (simp add: unat_byte_of tail_byte)
  show ?thesis
    unfolding e using decode_four [OF r s tail_byte(1) tail_byte(1), of x u bs] v by simp
qed

lemma decode_encode_cp:
  assumes "u < 0x110000" "\<not> (0xD800 \<le> u \<and> u \<le> 0xDFFF)"
  shows "utf8_decode (encode_cp u @ bs) = from_cp u @ utf8_decode bs"
proof -
  consider "u < 0x80" | "0x80 \<le> u" "u < 0x800" | "0x800 \<le> u" "u < 0x10000" | "0x10000 \<le> u"
    by linarith
  then show ?thesis
  proof cases
    case 1 then show ?thesis by (rule decode_encode_1)
  next
    case 2 then show ?thesis by (rule decode_encode_2)
  next
    case 3 then show ?thesis using assms(2) by (rule decode_encode_3)
  next
    case 4 then show ?thesis using assms(1) by (rule decode_encode_4)
  qed
qed


lemma unit_of_unat: "unit_of (unat c) = c"
  by (simp add: unit_of_def)

lemma decode_encode_unit:
  assumes "\<not> isHigh c" "\<not> isLow c"
  shows "utf8_decode (encode_cp (unat c) @ bs) = c # utf8_decode bs"
proof -
  have "unat c < 2 ^ LENGTH(16)" by (rule unsigned_less)
  then have l: "unat c < 0x10000" by simp
  then have l': "unat c < 0x110000" by linarith
  have n: "\<not> (0xD800 \<le> unat c \<and> unat c \<le> 0xDFFF)"
    using assms by (simp add: isHigh_def isLow_def) linarith
  show ?thesis
    using decode_encode_cp [OF l' n, of bs] l by (simp add: from_cp_def unit_of_unat)
qed

lemma decode_encode_pair:
  assumes "isHigh c" "isLow d"
  shows "utf8_decode (encode_cp (0x10000 + (unat c - 0xD800) * 0x400 + (unat d - 0xDC00)) @ bs)
         = c # d # utf8_decode bs"
proof -
  define h where "h = unat c - 0xD800"
  define l where "l = unat d - 0xDC00"
  have "0xD800 \<le> unat c" "unat c \<le> 0xDBFF" using assms(1) by (simp_all add: isHigh_def)
  then have h: "unat c = 0xD800 + h" "h < 0x400" unfolding h_def by linarith+
  have "0xDC00 \<le> unat d" "unat d \<le> 0xDFFF" using assms(2) by (simp_all add: isLow_def)
  then have l: "unat d = 0xDC00 + l" "l < 0x400" unfolding l_def by linarith+
  define u where "u = 0x10000 + h * 0x400 + l"
  have r: "u < 0x110000" "0x10000 \<le> u" "\<not> (0xD800 \<le> u \<and> u \<le> 0xDFFF)" "\<not> u < 0x10000"
    using h(2) l(2) by (simp_all add: u_def)
  have "(u - 0x10000) = h * 0x400 + l" by (simp add: u_def)
  then have dm: "(u - 0x10000) div 0x400 = h" "(u - 0x10000) mod 0x400 = l"
    using l(2) by simp_all
  have f: "from_cp u = [c, d]"
    using r(4) unit_of_unat [of c] unit_of_unat [of d]
    by (simp only: from_cp_def dm h(1) l(1) if_False)
  show ?thesis
    using decode_encode_cp [OF r(1) r(3), of bs] f by (simp add: u_def h_def l_def)
qed

lemma utf8_roundtrip: "well_formed s \<Longrightarrow> utf8_decode (utf8_encode s) = s"
proof (induction s rule: utf8_encode.induct)
  case 1
  show ?case by simp
next
  case (2 c cs)
  show ?case
  proof (cases "isHigh c")
    case True
    then obtain d ds where cs: "cs = d # ds" and d: "isLow d" and w: "well_formed ds"
      using "2.prems" by (auto split: list.splits)
    have "utf8_decode (utf8_encode ds) = ds" using "2.IH" True cs d w by simp
    then show ?thesis using True cs d decode_encode_pair [OF True d, of "utf8_encode ds"]
      by (simp del: utf8_decode.simps)
  next
    case False
    then have l: "\<not> isLow c" and w: "well_formed cs" using "2.prems" by simp_all
    have "utf8_decode (utf8_encode cs) = cs" using "2.IH" False l w by simp
    then show ?thesis using False l decode_encode_unit [OF False l, of "utf8_encode cs"]
      by (simp del: utf8_decode.simps)
  qed
qed

section \<open>Writing, then reading\<close>

lemma map_of_snoc_new: "map_of es s = None \<Longrightarrow> map_of (es @ [(s, v)]) s = Some v"
  by (simp add: map_add_def)

lemma store_lookup: "store fs p d = Inr fs' \<Longrightarrow> lookup fs' p = Inr (File d)"
proof (induction fs p d arbitrary: fs' rule: store.induct)
  case (4 es s ss d)
  show ?case
  proof (cases "map_of es s")
    case None
    with "4.prems" show ?thesis
      by (auto simp: map_add_def split: if_splits)
  next
    case (Some c)
    with "4.prems" obtain c' where c': "store c ss d = Inr c'" "fs' = Dir (AList.update s c' es)"
      by (auto split: sum.splits)
    from "4.IH" [OF Some c'(1)] c'(2) show ?thesis
      by (simp add: update_conv')
  qed
qed simp_all

lemma handleWriteFile_success:
  assumes "handleWriteFile srv args w = (Inr r, w')"
  shows "\<exists>q fs1. args \<noteq> JNull \<and> typeof (js_get args (js ''path'')) = ''string''
      \<and> typeof (js_get args (js ''content'')) = ''string''
      \<and> resolvePath srv (as_string (js_get args (js ''path''))) = Inr q
      \<and> fs_writeFile fs1 q (as_string (js_get args (js ''content''))) = Inr (files w')"
proof -
  let ?cp = "case js_get args (js ''create_parents'') of None \<Rightarrow> Some (JBool False) | Some v \<Rightarrow> Some v"
  have a: "args \<noteq> JNull" "typeof (js_get args (js ''path'')) = ''string''"
    "typeof (js_get args (js ''content'')) = ''string''" "typeof ?cp = ''boolean''"
    using assms by (auto simp: handleWriteFile_def Let_def split: if_splits)
  obtain q where q: "resolvePath srv (as_string (js_get args (js ''path''))) = Inr q"
    using assms a by (cases "resolvePath srv (as_string (js_get args (js ''path'')))")
      (auto simp: handleWriteFile_def Let_def)
  let ?m = "if ?cp = Some (JBool True)
            then (case fs_mkdir (files w) (path_dirname q) of
                    Inl e \<Rightarrow> Inl (e, log (FsMkdir (path_dirname q)) w)
                  | Inr fs' \<Rightarrow> Inr (log (FsMkdir (path_dirname q)) (w\<lparr>files := fs'\<rparr>)))
            else Inr w"
  obtain w1 where m: "?m = Inr w1"
    using assms a q by (cases ?m) (auto simp: handleWriteFile_def Let_def)
  have "\<exists>fs'. fs_writeFile (files w1) q (as_string (js_get args (js ''content''))) = Inr fs'
      \<and> files w' = fs'"
    using assms a q m
    by (cases "fs_writeFile (files w1) q (as_string (js_get args (js ''content'')))")
      (auto simp: handleWriteFile_def Let_def log_def split: if_splits)
  then show ?thesis using a q by auto
qed

lemma handleReadFile_reads:
  assumes "js_get args (js ''path'') = Some (JStr p)" "resolvePath srv p = Inr q"
    "fs_readFile (files w) q = Inr t"
  shows "handleReadFile srv args w = (Inr \<lparr>tool_text = t, isError = None\<rparr>, log (FsReadFile q) w)"
proof -
  have "args \<noteq> JNull" using assms(1) by auto
  then show ?thesis using assms by (simp add: handleReadFile_def Let_def as_string_def)
qed

lemma fs_write_then_read:
  assumes "well_formed s" "fs_writeFile fs q s = Inr fs'"
  shows "fs_readFile fs' q = Inr s"
proof -
  from assms(2) have n: "\<not> has_nul q" and st: "store fs (segments q) (utf8_encode s) = Inr fs'"
    by (auto simp: fs_writeFile_def split: if_splits)
  from store_lookup [OF st] n assms(1) show ?thesis
    by (simp add: fs_readFile_def utf8_roundtrip)
qed

lemma encode_lone_surrogate: "utf8_encode [0xD800] = [0xEF, 0xBF, 0xBD]"
  by (simp add: isHigh_def encode_cp_def byte_of_def)

lemma decode_replacement: "utf8_decode [0xEF, 0xBF, 0xBD] = [0xFFFD]"
  by (simp add: in_range_def second_lo_def second_hi_def bits_def from_cp_def unit_of_def)

lemma encode_hi: "utf8_encode (js ''hi'') = [0x68, 0x69]"
  by (simp add: js_simps isHigh_def isLow_def encode_cp_def byte_of_def)

lemma sandbox_resolves_file: "resolvePath sandbox (js ''f.txt'') = Inr (js ''/sandbox/f.txt'')"
  by code_simp

lemma segments_sandbox_file: "segments (js ''/sandbox/f.txt'') = [js ''sandbox'', js ''f.txt'']"
  by code_simp

lemma sandbox_file_no_nul: "\<not> has_nul (js ''/sandbox/f.txt'')"
  by code_simp

lemma sandbox_file_relative: "path_relative (root sandbox) (js ''/sandbox/f.txt'') = js ''f.txt''"
  by code_simp

text \<open>
  C9, as stated: any string written to a path is read back unchanged. A string with an
  unpaired surrogate is not: \<open>write_file\<close> succeeds and stores the bytes of U+FFFD, and
  \<open>read_file\<close> returns U+FFFD, not the code unit \<open>0xD800\<close> that was written.
\<close>

theorem lone_surrogate_not_read_back:
  "fst (handleWriteFile sandbox
          (JObj [(js ''path'', JStr (js ''f.txt'')), (js ''content'', JStr [0xD800])]) world0)
     = Inr \<lparr>tool_text = js ''Wrote f.txt'', isError = None\<rparr>
   \<and> fst (handleReadFile sandbox (JObj [(js ''path'', JStr (js ''f.txt''))])
           (snd (handleWriteFile sandbox
              (JObj [(js ''path'', JStr (js ''f.txt'')), (js ''content'', JStr [0xD800])]) world0)))
     = Inr \<lparr>tool_text = [0xFFFD], isError = None\<rparr>"
proof -
  have w: "handleWriteFile sandbox
          (JObj [(js ''path'', JStr (js ''f.txt'')), (js ''content'', JStr [0xD800])]) world0
      = (Inr \<lparr>tool_text = js ''Wrote f.txt'', isError = None\<rparr>,
         \<lparr>files = Dir [(js ''sandbox'', Dir [(js ''b.txt'', File []), (js ''a'', Dir []),
                    (js ''f.txt'', File [0xEF, 0xBF, 0xBD])])],
          effects = [FsWriteFile (js ''/sandbox/f.txt'')]\<rparr>)"
    using encode_lone_surrogate by (simp add: handleWriteFile_def Let_def as_string_def sandbox_resolves_file segments_sandbox_file sandbox_file_no_nul sandbox_file_relative fs_writeFile_def
        log_def world0_def disk_def del: utf8_encode.simps)
  show ?thesis
    unfolding w using decode_replacement
    by (simp add: handleReadFile_def Let_def as_string_def sandbox_resolves_file segments_sandbox_file sandbox_file_no_nul fs_readFile_def log_def
        del: utf8_decode.simps)
qed

text \<open>
  C9, amended: for every well-formed string \<open>s\<close> (every surrogate is half of a pair) and
  every path \<open>p\<close>, after a \<open>write_file\<close> with path \<open>p\<close> and content \<open>s\<close> that succeeded,
  a \<open>read_file\<close> with path \<open>p\<close> in the world the write left returns exactly \<open>s\<close>.
\<close>

theorem write_then_read:
  assumes "well_formed s"
    and "js_get wargs (js ''path'') = Some (JStr p)"
    and "js_get wargs (js ''content'') = Some (JStr s)"
    and "handleWriteFile srv wargs w = (Inr r, w')"
    and "js_get rargs (js ''path'') = Some (JStr p)"
  shows "handleReadFile srv rargs w'
         = (Inr \<lparr>tool_text = s, isError = None\<rparr>, log (FsReadFile (path_resolve (root srv) p)) w')"
proof -
  from handleWriteFile_success [OF assms(4)] assms(2,3)
  obtain q fs1 where q: "resolvePath srv p = Inr q" and wr: "fs_writeFile fs1 q s = Inr (files w')"
    by (auto simp: as_string_def)
  have "fs_readFile (files w') q = Inr s" using assms(1) wr by (rule fs_write_then_read)
  from handleReadFile_reads [OF assms(5) q this] resolvePath_Inr [OF q] show ?thesis by simp
qed

theorem write_then_read_witness:
  "well_formed (js ''hi'')
   \<and> js_get (JObj [(js ''path'', JStr (js ''f.txt'')), (js ''content'', JStr (js ''hi''))] :: nat json)
        (js ''path'') = Some (JStr (js ''f.txt''))
   \<and> js_get (JObj [(js ''path'', JStr (js ''f.txt'')), (js ''content'', JStr (js ''hi''))] :: nat json)
        (js ''content'') = Some (JStr (js ''hi''))
   \<and> handleWriteFile sandbox
        (JObj [(js ''path'', JStr (js ''f.txt'')), (js ''content'', JStr (js ''hi''))]) world0
      = (Inr \<lparr>tool_text = js ''Wrote f.txt'', isError = None\<rparr>,
         \<lparr>files = Dir [(js ''sandbox'', Dir [(js ''b.txt'', File []), (js ''a'', Dir []),
                    (js ''f.txt'', File [0x68, 0x69])])],
          effects = [FsWriteFile (js ''/sandbox/f.txt'')]\<rparr>)
   \<and> js_get (JObj [(js ''path'', JStr (js ''f.txt''))] :: nat json) (js ''path'')
      = Some (JStr (js ''f.txt''))
   \<and> fst (handleReadFile sandbox (JObj [(js ''path'', JStr (js ''f.txt''))])
        \<lparr>files = Dir [(js ''sandbox'', Dir [(js ''b.txt'', File []), (js ''a'', Dir []),
                    (js ''f.txt'', File [0x68, 0x69])])],
          effects = [FsWriteFile (js ''/sandbox/f.txt'')]\<rparr>)
      = Inr \<lparr>tool_text = js ''hi'', isError = None\<rparr>"
proof -
  let ?wargs = "JObj [(js ''path'', JStr (js ''f.txt'')), (js ''content'', JStr (js ''hi''))] :: nat json"
  let ?rargs = "JObj [(js ''path'', JStr (js ''f.txt''))] :: nat json"
  let ?w = "\<lparr>files = Dir [(js ''sandbox'', Dir [(js ''b.txt'', File []), (js ''a'', Dir []),
                    (js ''f.txt'', File [0x68, 0x69])])],
          effects = [FsWriteFile (js ''/sandbox/f.txt'')]\<rparr> :: nat world"
  have h1: "well_formed (js ''hi'')" by (simp add: js_simps isHigh_def isLow_def)
  have h2: "js_get ?wargs (js ''path'') = Some (JStr (js ''f.txt''))" by simp
  have h3: "js_get ?wargs (js ''content'') = Some (JStr (js ''hi''))" by simp
  have h4: "handleWriteFile sandbox ?wargs world0
      = (Inr \<lparr>tool_text = js ''Wrote f.txt'', isError = None\<rparr>, ?w)"
    using encode_hi by (simp add: handleWriteFile_def Let_def as_string_def sandbox_resolves_file segments_sandbox_file sandbox_file_no_nul sandbox_file_relative
        fs_writeFile_def log_def world0_def disk_def del: utf8_encode.simps)
  have h5: "js_get ?rargs (js ''path'') = Some (JStr (js ''f.txt''))" by simp
  from write_then_read [OF h1 h2 h3 h4 h5]
  have "fst (handleReadFile sandbox ?rargs ?w) = Inr \<lparr>tool_text = js ''hi'', isError = None\<rparr>"
    by simp
  with h1 h2 h3 h4 h5 show ?thesis by (intro conjI)
qed

section \<open>Sorting and listing\<close>

lemma mset_insert_sorted: "mset (insert_sorted cmp x xs) = add_mset x (mset xs)"
  by (induction xs) simp_all

lemma mset_array_sort: "mset (array_sort cmp xs) = mset xs"
  by (induction xs) (simp_all add: array_sort_def mset_insert_sorted)

lemma set_insert_sorted: "set (insert_sorted cmp x xs) = insert x (set xs)"
  using mset_insert_sorted [of cmp x xs, THEN arg_cong, of set_mset] by simp

lemma consistent_total: "consistent cmp \<Longrightarrow> \<not> cmp a b \<le> 0 \<Longrightarrow> cmp b a \<le> 0"
  unfolding consistent_def by (metis less_le not_le)

lemma consistent_trans: "consistent cmp \<Longrightarrow> cmp a b \<le> 0 \<Longrightarrow> cmp b c \<le> 0 \<Longrightarrow> cmp a c \<le> 0"
  unfolding consistent_def by blast

lemma sorted_insert_sorted:
  assumes "consistent cmp" "sorted_wrt (\<lambda>a b. cmp a b \<le> 0) xs"
  shows "sorted_wrt (\<lambda>a b. cmp a b \<le> 0) (insert_sorted cmp x xs)"
  using assms(2)
proof (induction xs)
  case Nil
  show ?case by simp
next
  case (Cons y ys)
  show ?case
  proof (cases "cmp x y \<le> 0")
    case True
    then have "\<forall>z \<in> set ys. cmp x z \<le> 0"
      using Cons.prems consistent_trans [OF assms(1)] by auto
    then show ?thesis using True Cons.prems by simp
  next
    case False
    then have "cmp y x \<le> 0" using consistent_total [OF assms(1)] by blast
    then show ?thesis using False Cons by (auto simp: set_insert_sorted)
  qed
qed

lemma sorted_array_sort:
  "consistent cmp \<Longrightarrow> sorted_wrt (\<lambda>a b. cmp a b \<le> 0) (array_sort cmp xs)"
  by (induction xs) (simp_all add: array_sort_def sorted_insert_sorted)

lemma join_eq_Nil: "\<forall>x \<in> set xs. x \<noteq> [] \<Longrightarrow> join sep xs = [] \<longleftrightarrow> xs = []"
  by (induction sep xs rule: join.induct) simp_all

lemma array_sort_two:
  assumes "consistent cmp" "cmp u v < 0"
  shows "array_sort cmp [u, v] = [u, v]" "array_sort cmp [v, u] = [u, v]"
proof -
  have "(cmp u v < 0) = (0 < cmp v u)" using assms(1) unfolding consistent_def by blast
  then have "\<not> cmp v u \<le> 0" using assms(2) by simp
  then show "array_sort cmp [u, v] = [u, v]" "array_sort cmp [v, u] = [u, v]"
    using assms(2) by (simp_all add: array_sort_def)
qed

lemma consistent_unit_compare: "consistent unit_compare"
proof -
  have anti: "(unit_compare a b < 0) = (0 < unit_compare b a)" for a b
    by (induction a b rule: unit_compare.induct) auto
  have le: "unit_compare a b \<le> 0 \<Longrightarrow> unit_compare b c \<le> 0 \<Longrightarrow> unit_compare a c \<le> 0"
    for a b c
  proof (induction a b arbitrary: c rule: unit_compare.induct)
    case 1
    then show ?case by simp
  next
    case (2 y ys)
    then show ?case by (cases c) simp_all
  next
    case (3 x xs)
    then show ?case by simp
  next
    case (4 x xs y ys)
    then show ?case by (cases c) (auto split: if_splits)
  qed
  show ?thesis unfolding consistent_def using anti le by blast
qed


lemma labels_nonempty:
  assumes "\<forall>(n, c) \<in> set es. n \<noteq> []" "x \<in> set es"
  shows "(case x of (n, c) \<Rightarrow> if is_dir c then n @ js ''/'' else n) \<noteq> []"
  using assms by (cases x) (auto split: if_splits)

lemma set_array_sort: "set (array_sort cmp xs) = set xs"
  using mset_array_sort [of cmp xs, THEN arg_cong, of set_mset] by simp

lemma array_sort_Nil: "array_sort cmp xs = [] \<longleftrightarrow> xs = []"
  using mset_array_sort [of cmp xs] by (metis mset_zero_iff)

lemma readdir_labels:
  "map entry_label (map (\<lambda>(n, c). \<lparr>dirent_name = n, isDirectory = is_dir c\<rparr>) es)
      = map (\<lambda>(n, c). if is_dir c then n @ js ''/'' else n) es"
  by (auto simp: entry_label_def)

lemma handleListDir_lists:
  assumes "(case js_get args (js ''path'') of None \<Rightarrow> Some (JStr (js ''.''))
             | Some JNull \<Rightarrow> Some (JStr (js ''.'')) | Some v \<Rightarrow> Some v) = Some (JStr p)"
    and "resolvePath srv p = Inr q"
    and "fs_readdir (files w) q = Inr entries"
  shows "handleListDir P srv args w
      = (Inr \<lparr>tool_text =
                (if join (js [CHR 0x0A]) (array_sort (localeCompare P) (map entry_label entries)) = []
                 then js ''(empty)''
                 else join (js [CHR 0x0A]) (array_sort (localeCompare P) (map entry_label entries))),
              isError = None\<rparr>, log (FsReaddir q) w)"
  unfolding handleListDir_def assms(1) using assms(2,3) by (simp add: Let_def as_string_def)

text \<open>
  What \<open>list_dir\<close> returns for a directory that \<open>resolvePath\<close> accepts: the labels of the
  directory's own entries, each once, a directory with a trailing \<open>/\<close>, in the order of
  \<open>localeCompare\<close> (a consistent comparator), joined with newlines, and \<open>(empty)\<close> when
  there is none.
\<close>

lemma handleListDir_text:
  assumes ord: "consistent (localeCompare P)"
    and path: "js_get args (js ''path'') = Some (JStr p)
       \<or> (p = js ''.'' \<and> (js_get args (js ''path'') = None \<or> js_get args (js ''path'') = Some JNull))"
    and q: "resolvePath srv p = Inr q"
    and dir: "\<not> has_nul q" "lookup (files w) (segments q) = Inr (Dir es)"
    and nonempty: "\<forall>(n, c) \<in> set es. n \<noteq> []"
  shows "\<exists>names.
      handleListDir P srv args w
        = (Inr \<lparr>tool_text = (if es = [] then js ''(empty)'' else join (js [CHR 0x0A]) names),
                isError = None\<rparr>, log (FsReaddir q) w)
      \<and> mset names = mset (map (\<lambda>(n, c). if is_dir c then n @ js ''/'' else n) es)
      \<and> sorted_wrt (\<lambda>a b. localeCompare P a b \<le> 0) names
      \<and> ((es = [(js ''b.txt'', File d), (js ''a'', Dir sub)]
            \<or> es = [(js ''a'', Dir sub), (js ''b.txt'', File d)])
           \<and> localeCompare P (js ''a/'') (js ''b.txt'') < 0
          \<longrightarrow> join (js [CHR 0x0A]) names = js ''a/'' @ js [CHR 0x0A] @ js ''b.txt'')"
proof -
  define labels where "labels = map (\<lambda>(n, c). if is_dir c then n @ js ''/'' else n) es"
  define names where "names = array_sort (localeCompare P) labels"
  have rd: "fs_readdir (files w) q
      = Inr (map (\<lambda>(n, c). \<lparr>dirent_name = n, isDirectory = is_dir c\<rparr>) es)"
    using dir by (simp add: fs_readdir_def)
  have up: "(case js_get args (js ''path'') of None \<Rightarrow> Some (JStr (js ''.''))
             | Some JNull \<Rightarrow> Some (JStr (js ''.'')) | Some v \<Rightarrow> Some v) = Some (JStr p)"
    using path by auto
  have "\<forall>x \<in> set labels. x \<noteq> []"
    unfolding labels_def using labels_nonempty [OF nonempty] by auto
  then have ne: "\<forall>x \<in> set names. x \<noteq> []"
    by (simp add: names_def set_array_sort)
  have em: "names = [] \<longleftrightarrow> es = []"
    by (simp add: names_def array_sort_Nil labels_def)
  have jn: "join (js [CHR 0x0A]) names = [] \<longleftrightarrow> es = []"
    using join_eq_Nil [OF ne] em by simp
  have run: "handleListDir P srv args w
      = (Inr \<lparr>tool_text = (if es = [] then js ''(empty)'' else join (js [CHR 0x0A]) names),
              isError = None\<rparr>, log (FsReaddir q) w)"
    using handleListDir_lists [OF up q rd, of P] jn
    by (simp only: readdir_labels labels_def [symmetric] names_def [symmetric] split: if_split)
  have ms: "mset names = mset labels" by (simp add: names_def mset_array_sort)
  have so: "sorted_wrt (\<lambda>a b. localeCompare P a b \<le> 0) names"
    unfolding names_def using ord by (rule sorted_array_sort)
  have ex: "join (js [CHR 0x0A]) names = js ''a/'' @ js [CHR 0x0A] @ js ''b.txt''"
    if es: "es = [(js ''b.txt'', File d), (js ''a'', Dir sub)]
        \<or> es = [(js ''a'', Dir sub), (js ''b.txt'', File d)]"
      and lt: "localeCompare P (js ''a/'') (js ''b.txt'') < 0"
  proof -
    have "labels = [js ''b.txt'', js ''a/''] \<or> labels = [js ''a/'', js ''b.txt'']"
      using es by (auto simp: labels_def)
    moreover have "array_sort (localeCompare P) [js ''a/'', js ''b.txt''] = [js ''a/'', js ''b.txt'']"
      using ord lt by (rule array_sort_two(1))
    moreover have "array_sort (localeCompare P) [js ''b.txt'', js ''a/''] = [js ''a/'', js ''b.txt'']"
      using ord lt by (rule array_sort_two(2))
    ultimately have "names = [js ''a/'', js ''b.txt'']"
      unfolding names_def by auto
    then show ?thesis by simp
  qed
  show ?thesis
  proof (intro exI [of _ names] conjI impI)
    show "handleListDir P srv args w
        = (Inr \<lparr>tool_text = (if es = [] then js ''(empty)'' else join (js [CHR 0x0A]) names),
                isError = None\<rparr>, log (FsReaddir q) w)" by (rule run)
    show "mset names = mset (map (\<lambda>(n, c). if is_dir c then n @ js ''/'' else n) es)"
      using ms by (simp add: labels_def)
    show "sorted_wrt (\<lambda>a b. localeCompare P a b \<le> 0) names" by (rule so)
    show "join (js [CHR 0x0A]) names = js ''a/'' @ js [CHR 0x0A] @ js ''b.txt''"
      if "(es = [(js ''b.txt'', File d), (js ''a'', Dir sub)]
            \<or> es = [(js ''a'', Dir sub), (js ''b.txt'', File d)])
           \<and> localeCompare P (js ''a/'') (js ''b.txt'') < 0"
      using that ex by blast
  qed
qed

lemma handleListDir_text_example:
  "js_get (JObj [(js ''path'', JStr (js ''.''))] :: nat json) (js ''path'') = Some (JStr (js ''.''))
   \<and> resolvePath sandbox (js ''.'') = Inr (js ''/sandbox'')
   \<and> \<not> has_nul (js ''/sandbox'')
   \<and> lookup (files world0) (segments (js ''/sandbox''))
       = Inr (Dir [(js ''b.txt'', File []), (js ''a'', Dir [])])
   \<and> localeCompare sample_platform (js ''a/'') (js ''b.txt'') < 0
   \<and> handleListDir sample_platform sandbox (JObj [(js ''path'', JStr (js ''.''))]) world0
       = (Inr \<lparr>tool_text = js ''a/'' @ js [CHR 0x0A] @ js ''b.txt'', isError = None\<rparr>,
          log (FsReaddir (js ''/sandbox'')) world0)"
proof -
  let ?args = "JObj [(js ''path'', JStr (js ''.''))] :: nat json"
  let ?es = "[(js ''b.txt'', File []), (js ''a'', Dir [])]"
  have h1: "consistent (localeCompare sample_platform)"
    by (simp add: sample_platform_def consistent_unit_compare)
  have h2s: "js_get ?args (js ''path'') = Some (JStr (js ''.''))" by simp
  then have h2: "js_get ?args (js ''path'') = Some (JStr (js ''.''))
     \<or> (js ''.'' = js ''.'' \<and> (js_get ?args (js ''path'') = None
          \<or> js_get ?args (js ''path'') = Some JNull))" by (rule disjI1)
  have h3: "resolvePath sandbox (js ''.'') = Inr (js ''/sandbox'')" by code_simp
  have h4: "\<not> has_nul (js ''/sandbox'')" by code_simp
  have h5: "lookup (files world0) (segments (js ''/sandbox'')) = Inr (Dir ?es)" by code_simp
  have h6: "\<forall>(n, c) \<in> set ?es. n \<noteq> []" by simp
  have h7: "localeCompare sample_platform (js ''a/'') (js ''b.txt'') < 0" by code_simp
  from handleListDir_text [OF h1 h2 h3 h4 h5 h6, of "[]" "[]"]
  obtain names where
    r: "handleListDir sample_platform sandbox ?args world0
        = (Inr \<lparr>tool_text = (if ?es = [] then js ''(empty)'' else join (js [CHR 0x0A]) names),
                isError = None\<rparr>, log (FsReaddir (js ''/sandbox'')) world0)"
    and e: "(?es = [(js ''b.txt'', File []), (js ''a'', Dir [])]
            \<or> ?es = [(js ''a'', Dir []), (js ''b.txt'', File [])])
           \<and> localeCompare sample_platform (js ''a/'') (js ''b.txt'') < 0
          \<longrightarrow> join (js [CHR 0x0A]) names = js ''a/'' @ js [CHR 0x0A] @ js ''b.txt''"
    by blast
  from e h7 have "join (js [CHR 0x0A]) names = js ''a/'' @ js [CHR 0x0A] @ js ''b.txt''" by blast
  with r have "handleListDir sample_platform sandbox ?args world0
       = (Inr \<lparr>tool_text = js ''a/'' @ js [CHR 0x0A] @ js ''b.txt'', isError = None\<rparr>,
          log (FsReaddir (js ''/sandbox'')) world0)" by simp
  with h2s h3 h4 h5 h7 show ?thesis by (intro conjI)
qed

text \<open>
  C8. \<open>list_dir\<close> on an existing directory should return the list of its entries. The
  directory \<open>/sandbox/..cache\<close> exists, lies below the root \<open>/sandbox\<close> and holds the file
  \<open>x.txt\<close>; \<open>list_dir\<close> with the path \<open>..cache\<close> does not list it: \<open>resolvePath\<close> rejects the
  path as outside of the root, because the relative path begins with two dots.
\<close>

theorem list_dir_rejects_directory_below_root:
  "lookup (files world_cache) (segments (path_resolve (root sandbox) (js ''..cache'')))
     = Inr (Dir [(js ''x.txt'', File [])])
   \<and> nested_under (root sandbox) (path_resolve (root sandbox) (js ''..cache''))
   \<and> handleListDir sample_platform sandbox (JObj [(js ''path'', JStr (js ''..cache''))]) world_cache
     = (Inl (MCPServerError (js ''Path '' @ quoted (js ''..cache'')
               @ js '' is outside of the server root.'')), world_cache)"
  by code_simp

section \<open>Dispatching a tool call\<close>

lemma registered:
  assumes "map_of (tools P srv) nm = Some t"
  shows "(nm = js ''read_file'' \<and> handler t = handleReadFile srv)
       \<or> (nm = js ''write_file'' \<and> handler t = handleWriteFile srv)
       \<or> (nm = js ''list_dir'' \<and> handler t = handleListDir P srv)
       \<or> (nm = js ''call_gemini'' \<and> handler t = handleCallGemini srv)"
  using assms by (auto simp: tools_def split: if_splits)

lemma handleReadFile_isError: "handleReadFile srv args w = (Inr r, w') \<Longrightarrow> isError r = None"
  by (auto simp: handleReadFile_def Let_def split: if_splits sum.splits)

lemma handleListDir_isError: "handleListDir P srv args w = (Inr r, w') \<Longrightarrow> isError r = None"
  by (auto simp: handleListDir_def Let_def split: if_splits sum.splits)

lemma handleCallGemini_isError: "handleCallGemini srv args w = (Inr r, w') \<Longrightarrow> isError r = None"
  by (auto simp: handleCallGemini_def Let_def split: if_splits sum.splits option.splits prod.splits)


lemma handleWriteFile_isError:
  assumes "handleWriteFile srv args w = (Inr r, w')"
  shows "isError r = None"
proof -
  from handleWriteFile_success [OF assms]
  obtain q where a: "args \<noteq> JNull" "typeof (js_get args (js ''path'')) = ''string''"
    "typeof (js_get args (js ''content'')) = ''string''"
    and q: "resolvePath srv (as_string (js_get args (js ''path''))) = Inr q"
    by blast
  let ?cp = "case js_get args (js ''create_parents'') of None \<Rightarrow> Some (JBool False) | Some v \<Rightarrow> Some v"
  have b: "typeof ?cp = ''boolean''"
    using assms a by (auto simp: handleWriteFile_def Let_def split: if_splits)
  let ?m = "if ?cp = Some (JBool True)
            then (case fs_mkdir (files w) (path_dirname q) of
                    Inl e \<Rightarrow> Inl (e, log (FsMkdir (path_dirname q)) w)
                  | Inr fs' \<Rightarrow> Inr (log (FsMkdir (path_dirname q)) (w\<lparr>files := fs'\<rparr>)))
            else Inr w"
  obtain w1 where m: "?m = Inr w1"
    using assms a b q by (cases ?m) (auto simp: handleWriteFile_def Let_def)
  show ?thesis
    using assms a b q m
    by (cases "fs_writeFile (files w1) q (as_string (js_get args (js ''content'')))")
      (auto simp: handleWriteFile_def Let_def split: if_splits)
qed

lemma registered_isError:
  assumes "map_of (tools P srv) nm = Some t" "handler t args w = (Inr r, w')"
  shows "isError r = None"
  using registered [OF assms(1)] assms(2)
  by (auto dest: handleReadFile_isError handleWriteFile_isError handleListDir_isError
      handleCallGemini_isError)

lemma typeof_JObj: "typeof (Some (JObj kvs)) = ''object''"
  by simp

lemma gemini_sandbox: "gemini sandbox = None"
  by (simp add: sandbox_def LocalMCPServer_def GeminiClient_def)

lemma tool_call_dispatch:
  assumes "nm \<in> fst ` set (tools P srv)"
    and "js_get params (js ''name'') = Some (JStr nm)"
    and "(case js_get params (js ''arguments'') of None \<Rightarrow> JObj [] | Some a \<Rightarrow> a) = JObj kvs"
  shows "\<exists>t. map_of (tools P srv) nm = Some t
      \<and> handleRequest P srv rid (Some (JStr (js ''tools/call''))) params w
        = (case handler t (JObj kvs) w of
             (Inl (MCPServerError m), w') \<Rightarrow> (Inr (Result rid (tool_envelope m True)), w')
           | (Inl (JsError m), w') \<Rightarrow>
               (Inr (Result rid (tool_envelope (js ''Tool failed: '' @ m) True)), w')
           | (Inr r, w') \<Rightarrow> (Inr (Result rid (tool_envelope (tool_text r) False)), w'))"
proof -
  obtain t where t: "map_of (tools P srv) nm = Some t"
    using assms(1) by (metis domD dom_map_of_conv_image_fst)
  have g: "tools_get P srv (js_get params (js ''name'')) = Some t"
    using t assms(2) by (simp add: tools_get_def)
  have n: "params \<noteq> JNull" using assms(2) by auto
  obtain res w' where h: "handler t (JObj kvs) w = (res, w')" by (cases "handler t (JObj kvs) w")
  have "handleRequest P srv rid (Some (JStr (js ''tools/call''))) params w
        = (case handler t (JObj kvs) w of
             (Inl (MCPServerError m), w') \<Rightarrow> (Inr (Result rid (tool_envelope m True)), w')
           | (Inl (JsError m), w') \<Rightarrow>
               (Inr (Result rid (tool_envelope (js ''Tool failed: '' @ m) True)), w')
           | (Inr r, w') \<Rightarrow> (Inr (Result rid (tool_envelope (tool_text r) False)), w'))"
  proof (cases res)
    case (Inl e)
    then show ?thesis using g n h assms(3)
      by (cases e) (simp_all add: handleRequest_def Let_def isArray_def)
  next
    case (Inr r)
    then have "isError r = None" using registered_isError [OF t] h by blast
    then show ?thesis using Inr g n h assms(3)
      by (simp add: handleRequest_def Let_def isArray_def)
  qed
  with t show ?thesis by blast
qed

text \<open>
  C3. A \<open>tools/call\<close> request that names a registered tool and whose arguments are an
  object (given, or the default \<open>{}\<close>) is answered by a result, never by an error member:
  when the handler throws, the content is the message of an \<open>MCPServerError\<close>, or
  \<open>Tool failed: \<close> followed by the message of any other error, and \<open>isError\<close> is true; when
  the handler returns, the content is its text and \<open>isError\<close> is false. The world is the
  one the handler left.
\<close>

theorem tool_call_result:
  assumes "nm \<in> fst ` set (tools P srv)"
    and "js_get params (js ''name'') = Some (JStr nm)"
    and "(case js_get params (js ''arguments'') of None \<Rightarrow> JObj [] | Some a \<Rightarrow> a) = JObj kvs"
  shows "\<exists>t. map_of (tools P srv) nm = Some t
      \<and> handleRequest P srv rid (Some (JStr (js ''tools/call''))) params w
        = (case handler t (JObj kvs) w of
             (Inl (MCPServerError m), w') \<Rightarrow>
               (Inr (Result rid (JObj
                  [(js ''content'', JArr [JObj [(js ''type'', JStr (js ''text'')),
                                                (js ''text'', JStr m)]]),
                   (js ''isError'', JBool True)])), w')
           | (Inl (JsError m), w') \<Rightarrow>
               (Inr (Result rid (JObj
                  [(js ''content'', JArr [JObj [(js ''type'', JStr (js ''text'')),
                                                (js ''text'', JStr (js ''Tool failed: '' @ m))]]),
                   (js ''isError'', JBool True)])), w')
           | (Inr r, w') \<Rightarrow>
               (Inr (Result rid (JObj
                  [(js ''content'', JArr [JObj [(js ''type'', JStr (js ''text'')),
                                                (js ''text'', JStr (tool_text r))]]),
                   (js ''isError'', JBool False)])), w'))"
  using tool_call_dispatch [OF assms, of rid w] unfolding tool_envelope_def .

theorem tool_call_result_witness:
  "js ''call_gemini'' \<in> fst ` set (tools sample_platform sandbox)
   \<and> js_get (JObj [(js ''name'', JStr (js ''call_gemini'')),
                   (js ''arguments'', JObj [(js ''prompt'', JStr (js ''x''))])] :: nat json)
        (js ''name'') = Some (JStr (js ''call_gemini''))
   \<and> (case js_get (JObj [(js ''name'', JStr (js ''call_gemini'')),
                   (js ''arguments'', JObj [(js ''prompt'', JStr (js ''x''))])] :: nat json)
              (js ''arguments'') of None \<Rightarrow> JObj [] | Some a \<Rightarrow> a)
        = JObj [(js ''prompt'', JStr (js ''x''))]
   \<and> handleRequest sample_platform sandbox (JNum 5) (Some (JStr (js ''tools/call'')))
        (JObj [(js ''name'', JStr (js ''call_gemini'')),
               (js ''arguments'', JObj [(js ''prompt'', JStr (js ''x''))])]) world0
      = (Inr (Result (JNum 5) (JObj
           [(js ''content'', JArr [JObj [(js ''type'', JStr (js ''text'')),
                                         (js ''text'', JStr (js (''Gemini client is not configured. Ensure @google/generative-ai''
                @ '' is installed and GOOGLE_API_KEY is exported.'')))]]),
            (js ''isError'', JBool True)])), world0)"
proof -
  let ?params = "JObj [(js ''name'', JStr (js ''call_gemini'')),
                   (js ''arguments'', JObj [(js ''prompt'', JStr (js ''x''))])] :: nat json"
  let ?args = "JObj [(js ''prompt'', JStr (js ''x''))] :: nat json"
  have h1: "js ''call_gemini'' \<in> fst ` set (tools sample_platform sandbox)"
    by (simp add: tools_def)
  have h2: "js_get ?params (js ''name'') = Some (JStr (js ''call_gemini''))" by simp
  have h3: "(case js_get ?params (js ''arguments'') of None \<Rightarrow> JObj [] | Some a \<Rightarrow> a) = ?args"
    by simp
  from tool_call_result [OF h1 h2 h3, of "JNum 5" world0]
  obtain t where t: "map_of (tools sample_platform sandbox) (js ''call_gemini'') = Some t"
    and r: "handleRequest sample_platform sandbox (JNum 5) (Some (JStr (js ''tools/call'')))
        ?params world0
        = (case handler t ?args world0 of
             (Inl (MCPServerError m), w') \<Rightarrow>
               (Inr (Result (JNum 5) (JObj
                  [(js ''content'', JArr [JObj [(js ''type'', JStr (js ''text'')),
                                                (js ''text'', JStr m)]]),
                   (js ''isError'', JBool True)])), w')
           | (Inl (JsError m), w') \<Rightarrow>
               (Inr (Result (JNum 5) (JObj
                  [(js ''content'', JArr [JObj [(js ''type'', JStr (js ''text'')),
                                                (js ''text'', JStr (js ''Tool failed: '' @ m))]]),
                   (js ''isError'', JBool True)])), w')
           | (Inr r, w') \<Rightarrow>
               (Inr (Result (JNum 5) (JObj
                  [(js ''content'', JArr [JObj [(js ''type'', JStr (js ''text'')),
                                                (js ''text'', JStr (tool_text r))]]),
                   (js ''isError'', JBool False)])), w'))"
    by blast
  have "handler t = handleCallGemini sandbox" using registered [OF t] by simp
  then have "handler t ?args world0
      = (Inl (MCPServerError (js (''Gemini client is not configured. Ensure @google/generative-ai''
                @ '' is installed and GOOGLE_API_KEY is exported.''))), world0)"
    by (simp add: handleCallGemini_def gemini_sandbox)
  with r have "handleRequest sample_platform sandbox (JNum 5) (Some (JStr (js ''tools/call'')))
        ?params world0
      = (Inr (Result (JNum 5) (JObj
           [(js ''content'', JArr [JObj [(js ''type'', JStr (js ''text'')),
                                         (js ''text'', JStr (js (''Gemini client is not configured. Ensure @google/generative-ai''
                @ '' is installed and GOOGLE_API_KEY is exported.'')))]]),
            (js ''isError'', JBool True)])), world0)"
    by simp
  with h1 h2 h3 show ?thesis by (intro conjI)
qed

section \<open>Argument types\<close>

lemma tools_schema:
  assumes "(nm, t) \<in> set (tools P srv)"
  obtains
    (rd) "nm = js ''read_file''" "handler t = handleReadFile srv"
      "declared t = [(js ''path'', js ''string'')]" "required t = [js ''path'']"
  | (wr) "nm = js ''write_file''" "handler t = handleWriteFile srv"
      "declared t = [(js ''path'', js ''string''), (js ''content'', js ''string''),
                     (js ''create_parents'', js ''boolean'')]"
      "required t = [js ''path'', js ''content'']"
  | (ls) "nm = js ''list_dir''" "handler t = handleListDir P srv"
      "declared t = [(js ''path'', js ''string'')]" "required t = []"
  | (gm) "nm = js ''call_gemini''" "handler t = handleCallGemini srv"
      "declared t = [(js ''prompt'', js ''string''), (js ''system_prompt'', js ''string''),
                     (js ''temperature'', js ''number''), (js ''top_p'', js ''number'')]"
      "required t = [js ''prompt'']"
  using assms
  by (auto simp: tools_def declared_def required_def object_schema_def schema_property_def
      as_string_def)

lemma write_file_path_check:
  assumes "args \<noteq> JNull" "typeof (js_get args (js ''path'')) \<noteq> ''string''"
  shows "handleWriteFile srv args w
         = (Inl (MCPServerError (quoted (js ''path'') @ js '' must be a string.'')), w)"
  using assms by (simp add: handleWriteFile_def Let_def)

lemma write_file_content_check:
  assumes "args \<noteq> JNull" "typeof (js_get args (js ''path'')) = ''string''"
    "typeof (js_get args (js ''content'')) \<noteq> ''string''"
  shows "handleWriteFile srv args w
         = (Inl (MCPServerError (quoted (js ''content'') @ js '' must be a string.'')), w)"
  using assms by (simp add: handleWriteFile_def Let_def)

lemma write_file_create_parents_check:
  assumes "args \<noteq> JNull" "typeof (js_get args (js ''path'')) = ''string''"
    "typeof (js_get args (js ''content'')) = ''string''"
    "js_get args (js ''create_parents'') \<noteq> None"
    "typeof (js_get args (js ''create_parents'')) \<noteq> ''boolean''"
  shows "handleWriteFile srv args w
         = (Inl (MCPServerError (quoted (js ''create_parents'') @ js '' must be a boolean.'')), w)"
proof -
  have "typeof (case js_get args (js ''create_parents'') of None \<Rightarrow> Some (JBool False)
                | Some v \<Rightarrow> Some v) \<noteq> ''boolean''"
    using assms(4,5) by (auto split: option.splits)
  then show ?thesis using assms(1-3) by (simp add: handleWriteFile_def Let_def)
qed

lemma call_gemini_prompt_check:
  assumes "gemini srv = Some model" "args \<noteq> JNull"
    "typeof (js_get args (js ''prompt'')) \<noteq> ''string''"
  shows "handleCallGemini srv args w
         = (Inl (MCPServerError (quoted (js ''prompt'') @ js '' must be a string.'')), w)"
  using assms by (simp add: handleCallGemini_def Let_def)

lemma call_gemini_system_prompt_check:
  assumes "gemini srv = Some model" "args \<noteq> JNull"
    "typeof (js_get args (js ''prompt'')) = ''string''"
    "js_get args (js ''system_prompt'') \<noteq> None"
    "typeof (js_get args (js ''system_prompt'')) \<noteq> ''string''"
  shows "handleCallGemini srv args w
         = (Inl (MCPServerError (quoted (js ''system_prompt'')
              @ js '' must be a string when provided.'')), w)"
  using assms by (simp add: handleCallGemini_def Let_def)

lemma call_gemini_temperature_check:
  assumes "gemini srv = Some model" "args \<noteq> JNull"
    "typeof (js_get args (js ''prompt'')) = ''string''"
    "js_get args (js ''system_prompt'') = None
       \<or> typeof (js_get args (js ''system_prompt'')) = ''string''"
    "js_get args (js ''temperature'') \<noteq> None"
    "typeof (js_get args (js ''temperature'')) \<noteq> ''number''"
  shows "handleCallGemini srv args w
         = (Inl (MCPServerError (quoted (js ''temperature'')
              @ js '' must be numeric when provided.'')), w)"
  using assms by (auto simp add: handleCallGemini_def Let_def)

lemma call_gemini_top_p_check:
  assumes "gemini srv = Some model" "args \<noteq> JNull"
    "typeof (js_get args (js ''prompt'')) = ''string''"
    "js_get args (js ''system_prompt'') = None
       \<or> typeof (js_get args (js ''system_prompt'')) = ''string''"
    "js_get args (js ''temperature'') = None
       \<or> typeof (js_get args (js ''temperature'')) = ''number''"
    "js_get args (js ''top_p'') \<noteq> None"
    "typeof (js_get args (js ''top_p'')) \<noteq> ''number''"
  shows "handleCallGemini srv args w
         = (Inl (MCPServerError (quoted (js ''top_p'')
              @ js '' must be numeric when provided.'')), w)"
  using assms by (auto simp add: handleCallGemini_def Let_def)

text \<open>
  C4, as stated: every handler rejects a declared field of the wrong type, null included,
  with an error that names the offending field. Three calls show otherwise.
  \<open>call_gemini\<close> with the number 5 as \<open>prompt\<close>, on a server without a Gemini client,
  fails with the error that the client is not configured, which names no field.
  \<open>list_dir\<close> with \<open>null\<close> as \<open>path\<close> does not fail: it lists the root, as it does when
  \<open>path\<close> is absent. \<open>write_file\<close> with the number 5 as \<open>create_parents\<close> and without
  \<open>content\<close> fails with an error that names \<open>content\<close>, the required field that is
  missing, not the field of the wrong type.
\<close>

theorem wrong_type_not_reported:
  "js_get (JObj [(js ''prompt'', JNum 5)] :: nat json) (js ''prompt'') = Some (JNum 5)
   \<and> handleCallGemini sandbox (JObj [(js ''prompt'', JNum 5)]) world0
     = (Inl (MCPServerError (js (''Gemini client is not configured. Ensure @google/generative-ai''
             @ '' is installed and GOOGLE_API_KEY is exported.''))), world0)
   \<and> js_get (JObj [(js ''path'', JNull)] :: nat json) (js ''path'') = Some JNull
   \<and> handleListDir sample_platform sandbox (JObj [(js ''path'', JNull)]) world0
     = (Inr \<lparr>tool_text = js ''a/'' @ js [CHR 0x0A] @ js ''b.txt'', isError = None\<rparr>,
        log (FsReaddir (js ''/sandbox'')) world0)
   \<and> js_get (JObj [(js ''path'', JStr (js ''a.txt'')), (js ''create_parents'', JNum 5)] :: nat json)
        (js ''create_parents'') = Some (JNum 5)
   \<and> handleWriteFile sandbox
        (JObj [(js ''path'', JStr (js ''a.txt'')), (js ''create_parents'', JNum 5)]) world0
     = (Inl (MCPServerError (quoted (js ''content'') @ js '' must be a string.'')), world0)"
proof -
  have a: "handleCallGemini sandbox (JObj [(js ''prompt'', JNum 5)]) world0
     = (Inl (MCPServerError (js (''Gemini client is not configured. Ensure @google/generative-ai''
             @ '' is installed and GOOGLE_API_KEY is exported.''))), world0)"
    by (simp add: handleCallGemini_def gemini_sandbox)
  have b: "handleListDir sample_platform sandbox (JObj [(js ''path'', JNull)]) world0
     = (Inr \<lparr>tool_text = js ''a/'' @ js [CHR 0x0A] @ js ''b.txt'', isError = None\<rparr>,
        log (FsReaddir (js ''/sandbox'')) world0)"
    by code_simp
  have c: "handleWriteFile sandbox
        (JObj [(js ''path'', JStr (js ''a.txt'')), (js ''create_parents'', JNum 5)]) world0
     = (Inl (MCPServerError (quoted (js ''content'') @ js '' must be a string.'')), world0)"
    by (simp add: handleWriteFile_def Let_def)
  show ?thesis using a b c by simp
qed

text \<open>
  C4, amended: for a registered tool and a field that its input schema declares, present
  in the arguments with a value whose type is not the declared one (for \<open>list_dir\<close>: a
  path other than \<open>null\<close>; for \<open>call_gemini\<close>: on a server whose Gemini client is
  configured), the handler throws an \<open>MCPServerError\<close> that names an offending field: its
  message is the quoted name of the first field, in the order the schema declares
  them, whose value is not of the declared type and that is present or required,
  followed by what the value must be. The world is unchanged: no call to the \<open>fs\<close>
  module or to the model has been made.
\<close>

theorem wrong_type_rejected:
  assumes reg: "(nm, t) \<in> set (tools P srv)"
    and fld: "(f, ty) \<in> set (declared t)"
    and val: "js_get args f = Some v" "js (typeof (Some v)) \<noteq> ty"
    and lst: "nm = js ''list_dir'' \<longrightarrow> js_get args (js ''path'') \<noteq> Some JNull"
    and gem: "nm = js ''call_gemini'' \<longrightarrow> gemini srv \<noteq> None"
  shows "\<exists>pre g gty post m.
       declared t = pre @ (g, gty) # post
       \<and> (\<forall>fd \<in> set pre. \<not> rejects t args fd)
       \<and> rejects t args (g, gty)
       \<and> m \<in> check_texts
       \<and> handler t args w = (Inl (MCPServerError (quoted g @ m)), w)"
proof -
  have n: "args \<noteq> JNull" using val(1) by auto
  from reg show ?thesis
  proof (cases rule: tools_schema)
    case rd
    then have b: "typeof (js_get args (js ''path'')) \<noteq> ''string''" using fld val by auto
    have "handleReadFile srv args w
        = (Inl (MCPServerError (quoted (js ''path'') @ js '' must be a string.'')), w)"
      using n b by (simp add: handleReadFile_def Let_def)
    then show ?thesis using rd b
      by (intro exI [of _ "[]"] exI [of _ "js ''path''"] exI [of _ "js ''string''"]
          exI [of _ "[]"] exI [of _ "js '' must be a string.''"])
        (simp add: rejects_def check_texts_def)
  next
    case ls
    then have f: "f = js ''path''" and b: "typeof (js_get args (js ''path'')) \<noteq> ''string''"
      using fld val by auto
    have nn: "v \<noteq> JNull" using lst ls val(1) f by auto
    have tv: "typeof (Some v) \<noteq> ''string''" using b val(1) f by simp
    have "handleListDir P srv args w
        = (Inl (MCPServerError (quoted (js ''path'') @ js '' must be a string.'')), w)"
      using val(1) nn tv unfolding f by (cases v) (simp_all add: handleListDir_def Let_def)
    then show ?thesis using ls b val(1) f
      by (intro exI [of _ "[]"] exI [of _ "js ''path''"] exI [of _ "js ''string''"]
          exI [of _ "[]"] exI [of _ "js '' must be a string.''"])
        (simp add: rejects_def check_texts_def)
  next
    case wr
    let ?p = "typeof (js_get args (js ''path'')) = ''string''"
    let ?c = "typeof (js_get args (js ''content'')) = ''string''"
    have bad: "\<not> ?p \<or> \<not> ?c \<or> (js_get args (js ''create_parents'') \<noteq> None
            \<and> typeof (js_get args (js ''create_parents'')) \<noteq> ''boolean'')"
      using wr fld val by auto
    consider (p) "\<not> ?p" | (c) "?p" "\<not> ?c"
      | (b) "?p" "?c" "js_get args (js ''create_parents'') \<noteq> None"
            "typeof (js_get args (js ''create_parents'')) \<noteq> ''boolean''"
      using bad by blast
    then show ?thesis
    proof cases
      case p
      from write_file_path_check [OF n p, of srv w] wr p show ?thesis
        by (intro exI [of _ "[]"] exI [of _ "js ''path''"] exI [of _ "js ''string''"]
            exI [of _ "[(js ''content'', js ''string''), (js ''create_parents'', js ''boolean'')]"]
            exI [of _ "js '' must be a string.''"])
          (simp add: rejects_def check_texts_def)
    next
      case c
      from write_file_content_check [OF n c, of srv w] wr c show ?thesis
        by (intro exI [of _ "[(js ''path'', js ''string'')]"] exI [of _ "js ''content''"]
            exI [of _ "js ''string''"] exI [of _ "[(js ''create_parents'', js ''boolean'')]"]
            exI [of _ "js '' must be a string.''"])
          (simp add: rejects_def check_texts_def)
    next
      case b
      from write_file_create_parents_check [OF n b, of srv w] wr b show ?thesis
        by (intro exI [of _ "[(js ''path'', js ''string''), (js ''content'', js ''string'')]"]
            exI [of _ "js ''create_parents''"] exI [of _ "js ''boolean''"] exI [of _ "[]"]
            exI [of _ "js '' must be a boolean.''"])
          (simp add: rejects_def check_texts_def)
    qed
  next
    case gm
    then obtain model where model: "gemini srv = Some model" using gem by auto
    let ?p = "typeof (js_get args (js ''prompt'')) = ''string''"
    let ?s = "js_get args (js ''system_prompt'') \<noteq> None
       \<and> typeof (js_get args (js ''system_prompt'')) \<noteq> ''string''"
    let ?t = "js_get args (js ''temperature'') \<noteq> None
       \<and> typeof (js_get args (js ''temperature'')) \<noteq> ''number''"
    let ?u = "js_get args (js ''top_p'') \<noteq> None
       \<and> typeof (js_get args (js ''top_p'')) \<noteq> ''number''"
    have bad: "\<not> ?p \<or> ?s \<or> ?t \<or> ?u" using gm fld val by auto
    consider (p) "\<not> ?p" | (s) "?p" "?s" | (t) "?p" "\<not> ?s" "?t" | (u) "?p" "\<not> ?s" "\<not> ?t" "?u"
      using bad by blast
    then show ?thesis
    proof cases
      case p
      from call_gemini_prompt_check [OF model n p, of w] gm p show ?thesis
        by (intro exI [of _ "[]"] exI [of _ "js ''prompt''"] exI [of _ "js ''string''"]
            exI [of _ "[(js ''system_prompt'', js ''string''), (js ''temperature'', js ''number''),
                        (js ''top_p'', js ''number'')]"]
            exI [of _ "js '' must be a string.''"])
          (simp add: rejects_def check_texts_def)
    next
      case s
      from call_gemini_system_prompt_check [OF model n s(1) conjunct1 [OF s(2)] conjunct2 [OF s(2)], of w]
        gm s show ?thesis
        by (intro exI [of _ "[(js ''prompt'', js ''string'')]"] exI [of _ "js ''system_prompt''"]
            exI [of _ "js ''string''"]
            exI [of _ "[(js ''temperature'', js ''number''), (js ''top_p'', js ''number'')]"]
            exI [of _ "js '' must be a string when provided.''"])
          (simp add: rejects_def check_texts_def)
    next
      case t
      have ns: "js_get args (js ''system_prompt'') = None
         \<or> typeof (js_get args (js ''system_prompt'')) = ''string''" using t(2) by blast
      from call_gemini_temperature_check [OF model n t(1) ns conjunct1 [OF t(3)] conjunct2 [OF t(3)], of w]
        gm t show ?thesis
        by (intro exI [of _ "[(js ''prompt'', js ''string''), (js ''system_prompt'', js ''string'')]"]
            exI [of _ "js ''temperature''"] exI [of _ "js ''number''"]
            exI [of _ "[(js ''top_p'', js ''number'')]"]
            exI [of _ "js '' must be numeric when provided.''"])
          (auto simp add: rejects_def check_texts_def)
    next
      case u
      have ns: "js_get args (js ''system_prompt'') = None
         \<or> typeof (js_get args (js ''system_prompt'')) = ''string''" using u(2) by blast
      have nt: "js_get args (js ''temperature'') = None
         \<or> typeof (js_get args (js ''temperature'')) = ''number''" using u(3) by blast
      from call_gemini_top_p_check [OF model n u(1) ns nt conjunct1 [OF u(4)] conjunct2 [OF u(4)], of w]
        gm u show ?thesis
        by (intro exI [of _ "[(js ''prompt'', js ''string''), (js ''system_prompt'', js ''string''),
                              (js ''temperature'', js ''number'')]"]
            exI [of _ "js ''top_p''"] exI [of _ "js ''number''"] exI [of _ "[]"]
            exI [of _ "js '' must be numeric when provided.''"])
          (auto simp add: rejects_def check_texts_def)
    qed
  qed
qed

theorem wrong_type_rejected_witness:
  "(js ''write_file'', snd (tools sample_platform sandbox ! 1)) \<in> set (tools sample_platform sandbox)
   \<and> (js ''content'', js ''string'') \<in> set (declared (snd (tools sample_platform sandbox ! 1)))
   \<and> js_get (JObj [(js ''path'', JStr (js ''a.txt'')), (js ''content'', JNum 5),
                   (js ''create_parents'', JNull)] :: nat json)
        (js ''content'') = Some (JNum 5)
   \<and> js (typeof (Some (JNum 5 :: nat json))) \<noteq> js ''string''
   \<and> js ''write_file'' \<noteq> js ''list_dir''
   \<and> js ''write_file'' \<noteq> js ''call_gemini''
   \<and> (\<exists>m. handler (snd (tools sample_platform sandbox ! 1))
              (JObj [(js ''path'', JStr (js ''a.txt'')), (js ''content'', JNum 5),
                     (js ''create_parents'', JNull)]) world0
            = (Inl (MCPServerError (quoted (js ''content'') @ m)), world0))"
proof -
  let ?t = "snd (tools sample_platform sandbox ! 1)"
  let ?args = "JObj [(js ''path'', JStr (js ''a.txt'')), (js ''content'', JNum 5),
                     (js ''create_parents'', JNull)] :: nat json"
  have h1: "(js ''write_file'', ?t) \<in> set (tools sample_platform sandbox)"
    by (simp add: tools_def)
  have d: "declared ?t = [(js ''path'', js ''string''), (js ''content'', js ''string''),
                     (js ''create_parents'', js ''boolean'')]"
    by (simp add: tools_def declared_def object_schema_def schema_property_def as_string_def)
  have h2: "(js ''content'', js ''string'') \<in> set (declared ?t)" unfolding d by simp
  have h3: "js_get ?args (js ''content'') = Some (JNum 5)" by simp
  have h4: "js (typeof (Some (JNum 5 :: nat json))) \<noteq> js ''string''" by simp
  have h5: "js ''write_file'' = js ''list_dir'' \<longrightarrow> js_get ?args (js ''path'') \<noteq> Some JNull"
    by simp
  have h6: "js ''write_file'' = js ''call_gemini'' \<longrightarrow> gemini sandbox \<noteq> None" by simp
  have n: "js ''write_file'' \<noteq> js ''list_dir''" "js ''write_file'' \<noteq> js ''call_gemini''"
    by simp_all
  from wrong_type_rejected [OF h1 h2 h3 h4 h5 h6, of world0]
  obtain pre g gty post m where
    s: "declared ?t = pre @ (g, gty) # post"
    and f: "\<forall>fd \<in> set pre. \<not> rejects ?t ?args fd"
    and r: "rejects ?t ?args (g, gty)"
    and e: "handler ?t ?args world0 = (Inl (MCPServerError (quoted g @ m)), world0)"
    by blast
  have rp: "\<not> rejects ?t ?args (js ''path'', js ''string'')" by (simp add: rejects_def)
  have rc: "rejects ?t ?args (js ''content'', js ''string'')" by (simp add: rejects_def)
  have "g = js ''content''"
    using s f r rp rc unfolding d
    by (auto simp: append_eq_Cons_conv Cons_eq_append_conv)
  with e have "\<exists>m. handler ?t ?args world0
      = (Inl (MCPServerError (quoted (js ''content'') @ m)), world0)" by blast
  with h1 h2 h3 h4 n show ?thesis by (intro conjI)
qed

section \<open>Escaping the root\<close>

text \<open>
  C1. \<open>resolvePath\<close> should succeed exactly on the paths that resolve to the root or below
  it, and no file system operation should touch a path outside the root. With the root
  \<open>/sandbox\<close>, the path \<open>..foo\<close> resolves to \<open>/sandbox/..foo\<close>, which lies below the root,
  and is rejected as outside of it: the check looks for the two characters \<open>..\<close> at the
  start of the relative path, not for the segment \<open>..\<close>. And \<open>write_file\<close> on the path
  \<open>.\<close> with \<open>create_parents\<close> calls \<open>mkdir\<close> on the parent of the root, here \<open>/\<close>.
\<close>

theorem resolvePath_rejects_path_below_root:
  "path_resolve (root sandbox) (js ''..foo'') = js ''/sandbox/..foo''
   \<and> nested_under (root sandbox) (js ''/sandbox/..foo'')
   \<and> resolvePath sandbox (js ''..foo'')
       = Inl (MCPServerError (js ''Path '' @ quoted (js ''..foo'')
                @ js '' is outside of the server root.''))
   \<and> effects (snd (handleWriteFile sandbox
         (JObj [(js ''path'', JStr (js ''.'')), (js ''content'', JStr []),
                (js ''create_parents'', JBool True)]) world0))
       = [FsMkdir (js ''/''), FsWriteFile (js ''/sandbox'')]
   \<and> \<not> within (root sandbox) (js ''/'')"
  by code_simp

end
